theory Spec2Isabelle
  imports Complex_Main "HOL-Library.AList" "HOL-Library.Code_Target_Nat"
begin

section \<open>JavaScript numbers and their decimal strings\<close>

text \<open>
  The engine keeps every monetary value as a decimal string and computes on the
  numbers \<open>parseFloat\<close> reads from them. A number is modelled as an exact rational or
  one of the three special values. Finite results are exact: the rounding of IEEE-754
  doubles, overflow to infinity and the sign of zero are outside this model.
\<close>

datatype number = NaN | PosInf | NegInf | Num rat

fun js_neg :: "number \<Rightarrow> number" where
  "js_neg NaN = NaN"
| "js_neg PosInf = NegInf"
| "js_neg NegInf = PosInf"
| "js_neg (Num a) = Num (- a)"

fun js_add :: "number \<Rightarrow> number \<Rightarrow> number" where
  "js_add NaN _ = NaN"
| "js_add _ NaN = NaN"
| "js_add (Num a) (Num b) = Num (a + b)"
| "js_add PosInf NegInf = NaN"
| "js_add NegInf PosInf = NaN"
| "js_add PosInf _ = PosInf"
| "js_add NegInf _ = NegInf"
| "js_add (Num a) b = b"

definition js_sub :: "number \<Rightarrow> number \<Rightarrow> number" where
  "js_sub a b = js_add a (js_neg b)"

fun js_sign :: "number \<Rightarrow> int" where
  "js_sign NaN = 0"
| "js_sign PosInf = 1"
| "js_sign NegInf = - 1"
| "js_sign (Num a) = (if a > 0 then 1 else if a < 0 then - 1 else 0)"

fun js_mul :: "number \<Rightarrow> number \<Rightarrow> number" where
  "js_mul NaN _ = NaN"
| "js_mul _ NaN = NaN"
| "js_mul (Num a) (Num b) = Num (a * b)"
| "js_mul a b =
     (if js_sign a * js_sign b = 0 then NaN
      else if js_sign a * js_sign b > 0 then PosInf else NegInf)"

text \<open>Comparisons: every comparison with \<open>NaN\<close> is false.\<close>

fun js_le :: "number \<Rightarrow> number \<Rightarrow> bool" where
  "js_le NaN _ = False"
| "js_le _ NaN = False"
| "js_le (Num a) (Num b) = (a \<le> b)"
| "js_le NegInf _ = True"
| "js_le _ PosInf = True"
| "js_le _ _ = False"

definition js_ge :: "number \<Rightarrow> number \<Rightarrow> bool" where
  "js_ge a b = js_le b a"

fun js_gt :: "number \<Rightarrow> number \<Rightarrow> bool" where
  "js_gt NaN _ = False"
| "js_gt _ NaN = False"
| "js_gt (Num a) (Num b) = (a > b)"
| "js_gt PosInf PosInf = False"
| "js_gt PosInf _ = True"
| "js_gt NegInf _ = False"
| "js_gt (Num a) NegInf = True"
| "js_gt (Num a) PosInf = False"

text \<open>\<open>Math.round\<close> rounds to the nearest integer, a half towards plus infinity.\<close>

definition Math_round :: "rat \<Rightarrow> int" where
  "Math_round x = \<lfloor>x + 1 / 2\<rfloor>"

subsection \<open>Digits\<close>

text \<open>Decimal digits by their character codes: \<open>0\<close> is 48 and \<open>9\<close> is 57.\<close>

definition isDigit :: "char \<Rightarrow> bool" where
  "isDigit c \<longleftrightarrow> 48 \<le> (of_char c :: nat) \<and> (of_char c :: nat) \<le> 57"

definition digitChar :: "nat \<Rightarrow> char" where
  "digitChar d = char_of (48 + d mod 10)"

definition digitVal :: "char \<Rightarrow> nat" where
  "digitVal c = of_char c - 48"

definition digitsVal :: "string \<Rightarrow> nat" where
  "digitsVal ds = foldl (\<lambda>n c. 10 * n + digitVal c) 0 ds"

function showNat :: "nat \<Rightarrow> string" where
  "showNat n = (if n < 10 then [digitChar n] else showNat (n div 10) @ [digitChar (n mod 10)])"
  by pat_completeness auto
termination
  by (relation "measure (\<lambda>n. n)") auto

declare showNat.simps [simp del]

text \<open>The decimal form of an integer, as a template literal prints a round number.\<close>

definition intToString :: "int \<Rightarrow> string" where
  "intToString i = (if i < 0 then CHR ''-'' # showNat (nat (- i)) else showNat (nat i))"

subsection \<open>\<open>parseFloat\<close>\<close>

text \<open>
  \<open>parseFloat\<close> skips leading white space, reads the longest prefix that is a decimal
  literal (a sign, \<open>Infinity\<close> or digits with an optional fraction and exponent) and
  ignores the rest; without such a prefix the result is \<open>NaN\<close>. White space is the
  ASCII part of the JavaScript set.
\<close>

definition isSpace :: "char \<Rightarrow> bool" where
  "isSpace c \<longleftrightarrow> c \<in> set [CHR '' '', CHR 0x09, CHR 0x0A, CHR 0x0B, CHR 0x0C, CHR 0x0D]"

definition pow10 :: "int \<Rightarrow> rat" where
  "pow10 e = (if e \<ge> 0 then 10 ^ nat e else 1 / 10 ^ nat (- e))"

definition readSign :: "string \<Rightarrow> bool \<times> string" where
  "readSign s =
     (case s of
        [] \<Rightarrow> (False, [])
      | c # r \<Rightarrow> if c = CHR ''-'' then (True, r) else if c = CHR ''+'' then (False, r) else (False, s))"

definition readExponent :: "string \<Rightarrow> int" where
  "readExponent s =
     (case s of
        [] \<Rightarrow> 0
      | c # r \<Rightarrow>
          if c = CHR ''e'' \<or> c = CHR ''E'' then
            (let (neg, t) = readSign r; ds = takeWhile isDigit t
             in if ds = [] then 0 else if neg then - int (digitsVal ds) else int (digitsVal ds))
          else 0)"

definition parseFloat :: "string \<Rightarrow> number" where
  "parseFloat s =
     (let (neg, u) = readSign (dropWhile isSpace s) in
      if take 8 u = ''Infinity'' then (if neg then NegInf else PosInf)
      else
        let ip = takeWhile isDigit u;
            r1 = dropWhile isDigit u;
            hasDot = (r1 \<noteq> [] \<and> hd r1 = CHR ''.'');
            fp = (if hasDot then takeWhile isDigit (tl r1) else []);
            r2 = (if hasDot then dropWhile isDigit (tl r1) else r1)
        in if ip = [] \<and> fp = [] then NaN
           else
             let m = (of_nat (digitsVal ip) + of_nat (digitsVal fp) / 10 ^ length fp)
                       * pow10 (readExponent r2)
             in Num (if neg then - m else m))"

subsection \<open>\<open>toFixed\<close> and \<open>toString\<close>\<close>

text \<open>
  \<open>x.toFixed(f)\<close> prints the integer \<open>n\<close> for which \<open>n / 10^f\<close> is closest to \<open>|x|\<close>
  (the larger one on a tie) with \<open>f\<close> fraction digits, after the sign of \<open>x\<close>. The
  model is the one of magnitudes below \<open>10^21\<close>; beyond, JavaScript switches to the
  exponent notation.
\<close>

definition padZeros :: "nat \<Rightarrow> string \<Rightarrow> string" where
  "padZeros f s = replicate (f - length s) (CHR ''0'') @ s"

definition toFixed :: "number \<Rightarrow> nat \<Rightarrow> string" where
  "toFixed x f =
     (case x of
        NaN \<Rightarrow> ''NaN''
      | PosInf \<Rightarrow> ''Infinity''
      | NegInf \<Rightarrow> ''-Infinity''
      | Num q \<Rightarrow>
          (let n = nat \<lfloor>\<bar>q\<bar> * 10 ^ f + 1 / 2\<rfloor>;
               body = showNat (n div 10 ^ f)
                        @ (if f = 0 then [] else CHR ''.'' # padZeros f (showNat (n mod 10 ^ f)))
           in if q < 0 then CHR ''-'' # body else body))"

text \<open>
  \<open>toString\<close> of a finite number: the integer part, then the fraction digits without
  trailing zeros. The engine applies it to round multipliers, which have at most two
  fraction digits; the model prints at most twenty and is the one of magnitudes between
  \<open>10^-6\<close> and \<open>10^21\<close>.
\<close>

fun fracDigits :: "nat \<Rightarrow> rat \<Rightarrow> string" where
  "fracDigits 0 r = []"
| "fracDigits (Suc k) r =
     (if r = 0 then []
      else digitChar (nat \<lfloor>r * 10\<rfloor>) # fracDigits k (r * 10 - of_int \<lfloor>r * 10\<rfloor>))"

definition numToString :: "rat \<Rightarrow> string" where
  "numToString q =
     (let a = \<bar>q\<bar>;
          ds = fracDigits 20 (a - of_int \<lfloor>a\<rfloor>);
          body = showNat (nat \<lfloor>a\<rfloor>) @ (if ds = [] then [] else CHR ''.'' # ds)
      in if q < 0 then CHR ''-'' # body else body)"

section \<open>The in-memory store\<close>

text \<open>
  A JavaScript \<open>Map\<close> keeps its entries in insertion order; \<open>set\<close> on a present key
  replaces the value in place, on a new key it appends. The rows carry the columns the
  engine reads or writes: of a user the identifier, the name and the balance, of games
  and bets all of them. Identifiers from \<open>randomUUID\<close> and times from
  \<open>new Date()\<close> are inputs of the operations that draw them; one operation uses one
  clock reading for every row it stamps.
\<close>

type_synonym 'v jsmap = "(string \<times> 'v) list"

definition Map_get :: "'v jsmap \<Rightarrow> string \<Rightarrow> 'v option" where
  "Map_get m k = map_of m k"

definition Map_set :: "'v jsmap \<Rightarrow> string \<Rightarrow> 'v \<Rightarrow> 'v jsmap" where
  "Map_set m k v = AList.update k v m"

definition Map_values :: "'v jsmap \<Rightarrow> 'v list" where
  "Map_values m = map snd m"

record User =
  id_u :: string
  username :: "string option"
  balance :: string

record Game =
  id_g :: string
  roundId_g :: int
  multiplier_g :: string
  hash_g :: string
  salt_g :: "string option"
  startedAt :: int
  crashedAt :: "int option"

record Bet =
  id_b :: string
  userId :: string
  gameId :: string
  amount :: string
  autoCashOut :: "string option"
  cashOutAt :: "string option"
  winAmount :: "string option"
  isActive :: bool
  placedAt :: int
  cashedOutAt :: "int option"

record MemStorage =
  users :: "User jsmap"
  games :: "Game jsmap"
  bets :: "Bet jsmap"

text \<open>A string or \<open>undefined\<close>/\<open>null\<close> in a condition: true when present and not empty.\<close>

definition truthy :: "string option \<Rightarrow> bool" where
  "truthy s = (case s of None \<Rightarrow> False | Some t \<Rightarrow> t \<noteq> [])"

definition getUser :: "MemStorage \<Rightarrow> string \<Rightarrow> User option" where
  "getUser s uid = Map_get (users s) uid"

definition updateUserBalance :: "MemStorage \<Rightarrow> string \<Rightarrow> string \<Rightarrow> MemStorage" where
  "updateUserBalance s uid newBalance =
     (case Map_get (users s) uid of
        None \<Rightarrow> s
      | Some user \<Rightarrow> s\<lparr>users := Map_set (users s) uid (user\<lparr>balance := newBalance\<rparr>)\<rparr>)"

definition createGame :: "MemStorage \<Rightarrow> string \<Rightarrow> int \<Rightarrow> int \<Rightarrow> string \<Rightarrow> Game \<times> MemStorage" where
  "createGame s uuid now rid h =
     (let game = \<lparr>id_g = uuid, roundId_g = rid, multiplier_g = ''0.00'', hash_g = h,
                   salt_g = None, startedAt = now, crashedAt = None\<rparr>
      in (game, s\<lparr>games := Map_set (games s) uuid game\<rparr>))"

definition getGameByRoundId :: "MemStorage \<Rightarrow> int \<Rightarrow> Game option" where
  "getGameByRoundId s rid = find (\<lambda>game. roundId_g game = rid) (Map_values (games s))"

definition updateGameCrash :: "MemStorage \<Rightarrow> int \<Rightarrow> string \<Rightarrow> string \<Rightarrow> string \<Rightarrow> MemStorage" where
  "updateGameCrash s now gid m slt =
     (case Map_get (games s) gid of
        None \<Rightarrow> s
      | Some game \<Rightarrow>
          s\<lparr>games := Map_set (games s) gid
                (game\<lparr>multiplier_g := m, salt_g := Some slt, crashedAt := Some now\<rparr>)\<rparr>)"

definition createBet ::
  "MemStorage \<Rightarrow> string \<Rightarrow> int \<Rightarrow> string \<Rightarrow> string \<Rightarrow> string \<Rightarrow> string option \<Rightarrow> Bet \<times> MemStorage" where
  "createBet s uuid now uid gid amt aco =
     (let newBet = \<lparr>id_b = uuid, userId = uid, gameId = gid, amount = amt,
                     autoCashOut = (if truthy aco then aco else None),
                     cashOutAt = None, winAmount = None, isActive = True,
                     placedAt = now, cashedOutAt = None\<rparr>
      in (newBet, s\<lparr>bets := Map_set (bets s) uuid newBet\<rparr>))"

definition getBetsByUserId :: "MemStorage \<Rightarrow> string \<Rightarrow> Bet list" where
  "getBetsByUserId s uid = filter (\<lambda>bet. userId bet = uid) (Map_values (bets s))"

definition updateBetCashOut :: "MemStorage \<Rightarrow> int \<Rightarrow> string \<Rightarrow> string \<Rightarrow> string \<Rightarrow> MemStorage" where
  "updateBetCashOut s now bid cashOut win =
     (case Map_get (bets s) bid of
        None \<Rightarrow> s
      | Some bet \<Rightarrow>
          s\<lparr>bets := Map_set (bets s) bid
                (bet\<lparr>cashOutAt := Some cashOut, winAmount := Some win, isActive := False,
                     cashedOutAt := Some now\<rparr>)\<rparr>)"

definition getActiveBetsByGameId :: "MemStorage \<Rightarrow> string \<Rightarrow> Bet list" where
  "getActiveBetsByGameId s gid =
     filter (\<lambda>bet. gameId bet = gid \<and> isActive bet) (Map_values (bets s))"

section \<open>Commitment hashes\<close>

text \<open>
  \<open>crypto\<close>'s SHA-256 digest (in hex) is a parameter \<open>sha256\<close>, and the 32 random bytes
  of the salt (in hex) are the input \<open>rnd\<close>.
\<close>

record Commitment =
  hash_c :: string
  salt_c :: string

definition generateHash :: "(string \<Rightarrow> string) \<Rightarrow> string \<Rightarrow> int \<Rightarrow> Commitment" where
  "generateHash sha256 rnd rid =
     (let slt = rnd;
          data = intToString rid @ '':'' @ slt
      in \<lparr>hash_c = sha256 data, salt_c = slt\<rparr>)"

definition verifyHash :: "(string \<Rightarrow> string) \<Rightarrow> int \<Rightarrow> string \<Rightarrow> string \<Rightarrow> bool" where
  "verifyHash sha256 rid slt expectedHash =
     (let data = intToString rid @ '':'' @ slt;
          computedHash = sha256 data
      in computedHash = expectedHash)"

definition generateGameSeed :: "(string \<Rightarrow> string) \<Rightarrow> string option \<Rightarrow> int \<Rightarrow> string" where
  "generateGameSeed sha256 envSeed rid =
     (let serverSeed =
            (case envSeed of
               None \<Rightarrow> ''default_server_seed_for_development''
             | Some e \<Rightarrow> if e = [] then ''default_server_seed_for_development'' else e);
          data = serverSeed @ '':'' @ intToString rid
      in sha256 data)"

section \<open>The crash engine\<close>

datatype phase = Waiting | Starting | Flying | Crashed

text \<open>
  \<open>GameState\<close> is the public part and the optional salt, so that
  \<open>Omit<GameState, 'salt'>\<close> is the record without its extension.
\<close>

record PublicGameState =
  roundId :: int
  phase :: phase
  multiplier :: rat
  startTime :: int
  duration :: int
  hash :: string
  countdown :: int

record GameState = PublicGameState +
  salt :: "string option"

text \<open>
  The events the engine emits, with the fields of their payloads in the order of the
  source: \<open>betCashedOut\<close> carries betId, userId, multiplier and winAmount;
  \<open>gameCrashed\<close> carries roundId and crashPoint; \<open>betPlaced\<close> carries userId, amount,
  autoCashOut and roundId.
\<close>

datatype event =
  GameStateUpdate PublicGameState
| BetCashedOut string string number number
| GameCrashed int rat
| BetPlaced string number "number option" int

text \<open>
  The result of a player action: \<open>payload\<close> is the \<open>betId\<close> of \<open>placeBet\<close> and the
  \<open>winAmount\<close> of \<open>manualCashOut\<close>.
\<close>

record 'a Result =
  success :: bool
  message :: string
  payload :: "'a option"

text \<open>
  The engine with the module's store. A timer field tells whether the interval is
  armed; \<open>gameEndTime\<close> is the constant that the flying interval's callback captured.
\<close>

record CrashEngine =
  currentGame :: "GameState option"
  gameTimer :: bool
  countdownTimer :: bool
  roundIdCounter :: int
  gameEndTime :: number
  storage :: MemStorage

definition WAIT_TIME :: int where
  "WAIT_TIME = 10000"

definition getPublicGameState :: "CrashEngine \<Rightarrow> PublicGameState" where
  "getPublicGameState e =
     (case currentGame e of
        None \<Rightarrow> \<lparr>roundId = 0, phase = Waiting, multiplier = 1, startTime = 0, duration = 0,
                  hash = [], countdown = 10\<rparr>
      | Some g \<Rightarrow> PublicGameState.truncate g)"

text \<open>The draw of \<open>Math.random()\<close>, a number in \<open>[0, 1)\<close>, is the input \<open>r\<close>.\<close>

definition generateCrashPoint :: "rat \<Rightarrow> number" where
  "generateCrashPoint r =
     (if r = 0 then PosInf
      else Num (max 1 (of_int \<lfloor>(99 / (r * 100)) * 100\<rfloor> / 100)))"

text \<open>
  \<open>cashOutBet\<close> and \<open>processAutoCashOuts\<close> as the caller that awaits them gets them
  when nothing else is in flight. Every call of the store finishes at its call, so
  the method goes from the engine at its call to the engine at its end, with the events
  it emits. \<open>manualCashOut\<close> awaits \<open>cashOutBet\<close> in this way; the methods that the
  flying callback starts without awaiting them are modelled task by task further down.
\<close>

definition cashOutBet :: "int \<Rightarrow> string \<Rightarrow> string \<Rightarrow> string \<Rightarrow> CrashEngine \<Rightarrow> CrashEngine \<times> event list" where
  "cashOutBet now bid uid m e =
     (case find (\<lambda>b. id_b b = bid \<and> isActive b) (getBetsByUserId (storage e) uid) of
        None \<Rightarrow> (e, [])
      | Some targetBet \<Rightarrow>
          (let win = toFixed (js_mul (parseFloat (amount targetBet)) (parseFloat m)) 2;
               s1 = updateBetCashOut (storage e) now bid m win;
               s2 = (case getUser s1 uid of
                       None \<Rightarrow> s1
                     | Some user \<Rightarrow>
                         updateUserBalance s1 uid
                           (toFixed (js_add (parseFloat (balance user)) (parseFloat win)) 2))
           in (e\<lparr>storage := s2\<rparr>, [BetCashedOut bid uid (parseFloat m) (parseFloat win)])))"

text \<open>
  The condition and the loop of \<open>processAutoCashOuts\<close> over the active bets it
  fetched. The loop reads the live multiplier of the current game at every bet.
\<close>

definition autoCashOutReached :: "Bet \<Rightarrow> rat \<Rightarrow> bool" where
  "autoCashOutReached bet m =
     (case autoCashOut bet of
        None \<Rightarrow> False
      | Some a \<Rightarrow> a \<noteq> [] \<and> js_le (parseFloat a) (Num m))"

fun autoCashOutLoop :: "int \<Rightarrow> Bet list \<Rightarrow> CrashEngine \<Rightarrow> CrashEngine \<times> event list" where
  "autoCashOutLoop now [] e = (e, [])"
| "autoCashOutLoop now (bet # rest) e =
     (case currentGame e of
        None \<Rightarrow> (e, [])
      | Some g \<Rightarrow>
          if autoCashOutReached bet (multiplier g)
          then (let (e1, ev1) = cashOutBet now (id_b bet) (userId bet) (numToString (multiplier g)) e;
                    (e2, ev2) = autoCashOutLoop now rest e1
                in (e2, ev1 @ ev2))
          else autoCashOutLoop now rest e)"

definition processAutoCashOuts :: "int \<Rightarrow> CrashEngine \<Rightarrow> CrashEngine \<times> event list" where
  "processAutoCashOuts now e =
     (case currentGame e of
        None \<Rightarrow> (e, [])
      | Some g \<Rightarrow>
          (case getGameByRoundId (storage e) (roundId g) of
             None \<Rightarrow> (e, [])
           | Some gameFromDb \<Rightarrow>
               autoCashOutLoop now (getActiveBetsByGameId (storage e) (id_g gameFromDb)) e))"

text \<open>
  \<open>startFlying\<close> at clock reading \<open>now\<close> with the random draw \<open>r\<close>. The crash point
  times 1000 is added to the start time to give the end time of the flight.
\<close>

definition startFlying :: "int \<Rightarrow> rat \<Rightarrow> CrashEngine \<Rightarrow> CrashEngine \<times> event list" where
  "startFlying now r e =
     (case currentGame e of
        None \<Rightarrow> (e, [])
      | Some g \<Rightarrow>
          (let g' = g\<lparr>phase := Flying, multiplier := 1, startTime := now\<rparr>;
               crashPoint = generateCrashPoint r;
               endTime = js_add (Num (of_int (startTime g'))) (js_mul crashPoint (Num 1000));
               e' = e\<lparr>currentGame := Some g', countdownTimer := False, gameTimer := True,
                      gameEndTime := endTime\<rparr>
           in (e', [GameStateUpdate (getPublicGameState e')])))"

text \<open>The multiplier the flying interval computes from the elapsed milliseconds.\<close>

definition multiplierAt :: "int \<Rightarrow> rat" where
  "multiplierAt elapsed =
     (let newMultiplier = 1 + (of_int elapsed / 1000) * (1 / 10)
      in of_int (Math_round (newMultiplier * 100)) / 100)"

text \<open>
  Microtasks. An async method runs at its call up to its first \<open>await\<close>; the rest runs
  as a microtask once the awaited promise is settled, and microtasks run first in, first
  out. Every method of the in-memory store finishes at its call, so awaiting one queues
  the rest of the caller at once. The flying callback starts \<open>processAutoCashOuts\<close> and,
  in the tick that ends the flight, \<open>crashGame\<close>, and awaits neither: their steps
  alternate in the queue.

  A task is the rest of a method after an \<open>await\<close>, with what the method holds then.
  Objects are held by reference: a task names a bet or a user by its key in the store,
  and the fields are read from the store when the code reads them. Of the game row a
  task reads the identifier alone, which no method writes, so the row is held as it
  was fetched. The two queries below are \<open>getActiveBetsByGameId\<close> and
  \<open>getBetsByUserId\<close> with the bets by reference.
\<close>

definition getActiveBetRefs :: "MemStorage \<Rightarrow> string \<Rightarrow> string list" where
  "getActiveBetRefs s gid =
     map fst (filter (\<lambda>(k, bet). gameId bet = gid \<and> isActive bet) (bets s))"

definition getBetRefsByUserId :: "MemStorage \<Rightarrow> string \<Rightarrow> string list" where
  "getBetRefsByUserId s uid = map fst (filter (\<lambda>(k, bet). userId bet = uid) (bets s))"

text \<open>
  The tasks of \<open>processAutoCashOuts\<close>: \<open>PAC_game\<close> after \<open>await getGameByRoundId\<close>, with the
  game it got; \<open>PAC_loop\<close> after \<open>await getActiveBetsByGameId\<close> and after each
  \<open>await cashOutBet\<close>, with the bets the loop has left.

  The tasks of the \<open>cashOutBet\<close> that the loop awaits, each with betId, userId and
  multiplier and, last, the bets the loop has left: \<open>COB_find\<close> after
  \<open>await getBetsByUserId\<close>, with the user's bets; \<open>COB_user\<close> after
  \<open>await updateBetCashOut\<close>, with winAmount; \<open>COB_credit\<close> after \<open>await getUser\<close>, with
  the user; \<open>COB_emit\<close> after \<open>await updateUserBalance\<close>.

  The tasks of \<open>crashGame\<close>, each with the multiplier it read at its call: \<open>CG_crash\<close>
  after \<open>await getGameByRoundId\<close> and \<open>CG_fetch\<close> after \<open>await updateGameCrash\<close>, with the
  game; \<open>CG_sweep\<close> after \<open>await getActiveBetsByGameId\<close> and after each
  \<open>await updateBetCashOut\<close>, with the bets the sweep has left.
\<close>

datatype task =
  PAC_game "Game option"
| PAC_loop "string list"
| COB_find string string string "string list" "string list"
| COB_user string string string string "string list"
| COB_credit string string string string "string option" "string list"
| COB_emit string string string string "string list"
| CG_crash "Game option" rat
| CG_fetch "Game option" rat
| CG_sweep "string list" rat

text \<open>
  The loop of \<open>processAutoCashOuts\<close> from the bets it has left: it runs on until it
  calls \<open>cashOutBet\<close>, which fetches the user's bets and awaits, or until the bets end.
\<close>

fun autoCashOutNext :: "CrashEngine \<Rightarrow> string list \<Rightarrow> task list" where
  "autoCashOutNext e [] = []"
| "autoCashOutNext e (k # rest) =
     (case Map_get (bets (storage e)) k of
        None \<Rightarrow> autoCashOutNext e rest
      | Some bet \<Rightarrow>
          (case currentGame e of
             None \<Rightarrow> []
           | Some g \<Rightarrow>
               if autoCashOutReached bet (multiplier g)
               then [COB_find (id_b bet) (userId bet) (numToString (multiplier g))
                       (getBetRefsByUserId (storage e) (userId bet)) rest]
               else autoCashOutNext e rest))"

text \<open>
  The end of \<open>crashGame\<close>, and its part from \<open>if (gameFromDb)\<close> to the next \<open>await\<close>.
  The timer that \<open>crashGame\<close> sets at its end fires three seconds later: it is the next
  \<open>startNewRound\<close>.
\<close>

definition crashEnd :: "rat \<Rightarrow> CrashEngine \<Rightarrow> CrashEngine \<times> event list \<times> task list" where
  "crashEnd crashMultiplier e =
     (e, (case currentGame e of
            None \<Rightarrow> []
          | Some g \<Rightarrow> [GameCrashed (roundId g) crashMultiplier,
                        GameStateUpdate (getPublicGameState e)]), [])"

definition crashFetch :: "Game option \<Rightarrow> rat \<Rightarrow> CrashEngine \<Rightarrow> CrashEngine \<times> event list \<times> task list" where
  "crashFetch gameFromDb crashMultiplier e =
     (case gameFromDb of
        None \<Rightarrow> crashEnd crashMultiplier e
      | Some gdb \<Rightarrow> (e, [], [CG_sweep (getActiveBetRefs (storage e) (id_g gdb)) crashMultiplier]))"

text \<open>
  One microtask: the engine after it, the events it emits and the task it queues.
  \<open>now\<close> stamps the rows that \<open>cashOutBet\<close> writes and \<open>now'\<close> those that \<open>crashGame\<close>
  writes.
\<close>

fun step :: "int \<Rightarrow> int \<Rightarrow> task \<Rightarrow> CrashEngine \<Rightarrow> CrashEngine \<times> event list \<times> task list" where
  "step now now' (PAC_game gameFromDb) e =
     (case gameFromDb of
        None \<Rightarrow> (e, [], [])
      | Some gdb \<Rightarrow> (e, [], [PAC_loop (getActiveBetRefs (storage e) (id_g gdb))]))"
| "step now now' (PAC_loop refs) e = (e, [], autoCashOutNext e refs)"
| "step now now' (COB_find bid uid m userBets rest) e =
     (case find (\<lambda>k. case Map_get (bets (storage e)) k of
                        None \<Rightarrow> False
                      | Some b \<Rightarrow> id_b b = bid \<and> isActive b) userBets of
        None \<Rightarrow> (e, [], [PAC_loop rest])
      | Some k \<Rightarrow>
          (case Map_get (bets (storage e)) k of
             None \<Rightarrow> (e, [], [PAC_loop rest])
           | Some targetBet \<Rightarrow>
               (let win = toFixed (js_mul (parseFloat (amount targetBet)) (parseFloat m)) 2
                in (e\<lparr>storage := updateBetCashOut (storage e) now bid m win\<rparr>, [],
                    [COB_user bid uid m win rest]))))"
| "step now now' (COB_user bid uid m win rest) e =
     (e, [], [COB_credit bid uid m win
                (case getUser (storage e) uid of None \<Rightarrow> None | Some user \<Rightarrow> Some uid) rest])"
| "step now now' (COB_credit bid uid m win userRef rest) e =
     (case (case userRef of None \<Rightarrow> None | Some r \<Rightarrow> Map_get (users (storage e)) r) of
        None \<Rightarrow> (e, [BetCashedOut bid uid (parseFloat m) (parseFloat win)], [PAC_loop rest])
      | Some user \<Rightarrow>
          (e\<lparr>storage := updateUserBalance (storage e) uid
                            (toFixed (js_add (parseFloat (balance user)) (parseFloat win)) 2)\<rparr>,
           [], [COB_emit bid uid m win rest]))"
| "step now now' (COB_emit bid uid m win rest) e =
     (e, [BetCashedOut bid uid (parseFloat m) (parseFloat win)], [PAC_loop rest])"
| "step now now' (CG_crash gameFromDb crashMultiplier) e =
     (case gameFromDb of
        None \<Rightarrow> crashFetch gameFromDb crashMultiplier e
      | Some gdb \<Rightarrow>
          (case (case currentGame e of None \<Rightarrow> None | Some g \<Rightarrow> salt g) of
             None \<Rightarrow> crashFetch gameFromDb crashMultiplier e
           | Some slt \<Rightarrow>
               if slt = [] then crashFetch gameFromDb crashMultiplier e
               else (e\<lparr>storage := updateGameCrash (storage e) now' (id_g gdb)
                                      (numToString crashMultiplier) slt\<rparr>, [],
                     [CG_fetch gameFromDb crashMultiplier])))"
| "step now now' (CG_fetch gameFromDb crashMultiplier) e = crashFetch gameFromDb crashMultiplier e"
| "step now now' (CG_sweep refs crashMultiplier) e =
     (case refs of
        [] \<Rightarrow> crashEnd crashMultiplier e
      | k # rest \<Rightarrow>
          (case Map_get (bets (storage e)) k of
             None \<Rightarrow> (e, [], [CG_sweep rest crashMultiplier])
           | Some bet \<Rightarrow>
               (e\<lparr>storage := updateBetCashOut (storage e) now' (id_b bet) ''0.00'' ''0.00''\<rparr>, [],
                [CG_sweep rest crashMultiplier])))"

text \<open>
  A bound on the microtasks that a task can still cause, in a store of \<open>n\<close> bets; it is
  the measure by which the queue runs empty.
\<close>

fun taskWeight :: "nat \<Rightarrow> task \<Rightarrow> nat" where
  "taskWeight n (PAC_game g) = 6 * n + 3"
| "taskWeight n (PAC_loop refs) = 6 * length refs + 1"
| "taskWeight n (COB_find bid uid m ub rest) = 6 * length rest + 6"
| "taskWeight n (COB_user bid uid m win rest) = 6 * length rest + 5"
| "taskWeight n (COB_credit bid uid m win u rest) = 6 * length rest + 4"
| "taskWeight n (COB_emit bid uid m win rest) = 6 * length rest + 3"
| "taskWeight n (CG_crash g c) = n + 4"
| "taskWeight n (CG_fetch g c) = n + 3"
| "taskWeight n (CG_sweep refs c) = length refs + 1"

definition queueWeight :: "task list \<Rightarrow> CrashEngine \<Rightarrow> nat" where
  "queueWeight q e = sum_list (map (taskWeight (length (bets (storage e)))) q)"

text \<open>
  The queue run until it is empty: the first task runs, and what it queues goes to the
  end. The result is the engine then and the events in the order they were emitted.
\<close>

function drain :: "int \<Rightarrow> int \<Rightarrow> task list \<Rightarrow> CrashEngine \<times> event list \<Rightarrow> CrashEngine \<times> event list" where
  "drain now now' [] w = w"
| "drain now now' (t # q) w =
     (case step now now' t (fst w) of
        (e', ev, ts) \<Rightarrow> drain now now' (q @ ts) (e', snd w @ ev))"
  by pat_completeness auto
termination
proof -
  have present: "length (Map_set m k v') = length m" if "Map_get m k = Some v"
    for m :: "Bet jsmap" and k v v'
    using that by (induction m) (auto simp: Map_get_def Map_set_def split: if_splits)
  have cash [simp]: "length (bets (updateBetCashOut s now bid c w)) = length (bets s)"
    for s now bid c w
    by (simp add: updateBetCashOut_def present split: option.splits)
  have bal [simp]: "length (bets (updateUserBalance s uid nb)) = length (bets s)" for s uid nb
    by (simp add: updateUserBalance_def split: option.splits)
  have crash [simp]: "length (bets (updateGameCrash s now gid m slt)) = length (bets s)"
    for s now gid m slt
    by (simp add: updateGameCrash_def split: option.splits)
  have refs: "length (getActiveBetRefs s gid) \<le> length (bets s)" for s gid
    by (simp add: getActiveBetRefs_def)
  have refs_less [simp]:
    "length (getActiveBetRefs s gid) < Suc (Suc (length (bets s)))"
    "length (getActiveBetRefs s gid) < 3 + length (bets s)" for s gid
    using refs [of s gid] by simp_all
  have next_weight: "sum_list (map (taskWeight n) (autoCashOutNext e rs)) < 6 * length rs + 1"
    for n e rs
    by (induction rs) (auto split: option.splits)
  have same: "length (bets (storage e')) = length (bets (storage e))"
    if "step now now' t e = (e', ev, ts)" for now now' t e e' ev ts
    using that
    by (cases t)
       (auto simp: crashFetch_def crashEnd_def Let_def split: option.splits list.splits if_splits)
  have less: "sum_list (map (taskWeight (length (bets (storage e)))) ts)
                < taskWeight (length (bets (storage e))) t"
    if st: "step now now' t e = (e', ev, ts)" for now now' t e e' ev ts
  proof (cases t)
    case (PAC_loop rs)
    with st next_weight [of _ e rs] show ?thesis by auto
  next
    case (PAC_game g)
    show ?thesis
    proof (cases g)
      case None
      with PAC_game st show ?thesis by auto
    next
      case (Some gdb)
      with PAC_game st refs [of "storage e" "id_g gdb"] show ?thesis by auto
    qed
  qed (use st in \<open>auto simp: crashFetch_def crashEnd_def Let_def
         split: option.splits list.splits if_splits\<close>)
  show ?thesis
    apply (relation "measure (\<lambda>(now, now', q, w). queueWeight q (fst w))")
     apply simp
    apply (simp add: queueWeight_def)
    using same less apply (metis add.commute add_less_cancel_left)
    done
qed

text \<open>
  The parts of \<open>processAutoCashOuts\<close> and \<open>crashGame\<close> that run at their call, up to
  the first \<open>await\<close>: the tasks they queue, and for \<open>crashGame\<close> the engine with the
  timer cleared and the phase set.
\<close>

definition startProcessAutoCashOuts :: "CrashEngine \<Rightarrow> task list" where
  "startProcessAutoCashOuts e =
     (case currentGame e of
        None \<Rightarrow> []
      | Some g \<Rightarrow> [PAC_game (getGameByRoundId (storage e) (roundId g))])"

definition startCrashGame :: "CrashEngine \<Rightarrow> CrashEngine \<times> task list" where
  "startCrashGame e =
     (case currentGame e of
        None \<Rightarrow> (e, [])
      | Some g \<Rightarrow>
          if phase g \<noteq> Flying then (e, [])
          else (e\<lparr>currentGame := Some (g\<lparr>phase := Crashed\<rparr>), gameTimer := False\<rparr>,
                [CG_crash (getGameByRoundId (storage e) (roundId g)) (multiplier g)]))"

text \<open>
  One run of the flying interval's callback. \<open>now\<close> is the clock reading that gives the
  elapsed time, \<open>now'\<close> the later one of the crash check. \<open>tickStart\<close> is the callback
  itself: the queue it leaves, the engine and the event it emitted. \<open>tick\<close> is the
  callback and the microtasks after it, and \<open>microtasks n\<close> are the first \<open>n\<close> of them.
\<close>

definition tickStart :: "int \<Rightarrow> int \<Rightarrow> CrashEngine \<Rightarrow> task list \<times> CrashEngine \<times> event list" where
  "tickStart now now' e =
     (case currentGame e of
        None \<Rightarrow> ([], e, [])
      | Some g \<Rightarrow>
          if phase g \<noteq> Flying then ([], e, [])
          else
            (let elapsed = now - startTime g;
                 e1 = e\<lparr>currentGame := Some (g\<lparr>multiplier := multiplierAt elapsed\<rparr>)\<rparr>;
                 q1 = startProcessAutoCashOuts e1;
                 ev1 = [GameStateUpdate (getPublicGameState e1)]
             in if js_ge (Num (of_int now')) (gameEndTime e)
                then (let (e2, q2) = startCrashGame e1 in (q1 @ q2, e2, ev1))
                else (q1, e1, ev1)))"

definition tick :: "int \<Rightarrow> int \<Rightarrow> CrashEngine \<Rightarrow> CrashEngine \<times> event list" where
  "tick now now' e = (let (q, w) = tickStart now now' e in drain now now' q w)"

fun microtasks ::
  "nat \<Rightarrow> int \<Rightarrow> int \<Rightarrow> task list \<times> CrashEngine \<times> event list \<Rightarrow> task list \<times> CrashEngine \<times> event list" where
  "microtasks n now now' (q, w) =
     (if n = 0 then (q, w)
      else (case q of
              [] \<Rightarrow> ([], w)
            | t # q' \<Rightarrow>
                (case step now now' t (fst w) of
                   (e', ev, ts) \<Rightarrow> microtasks (n - 1) now now' (q' @ ts, e', snd w @ ev))))"

text \<open>
  \<open>startNewRound\<close>, with the digest function, the random salt, the identifier of the
  new game row and the clock reading as inputs, and the callback of the countdown
  interval, one second apart.
\<close>

definition startNewRound ::
  "(string \<Rightarrow> string) \<Rightarrow> string \<Rightarrow> string \<Rightarrow> int \<Rightarrow> CrashEngine \<Rightarrow> CrashEngine \<times> event list" where
  "startNewRound sha256 rnd uuid now e =
     (let rid = roundIdCounter e + 1;
          c = generateHash sha256 rnd rid;
          g = \<lparr>roundId = rid, phase = Waiting, multiplier = 1, startTime = 0, duration = 0,
                hash = hash_c c, countdown = WAIT_TIME div 1000, salt = Some (salt_c c)\<rparr>;
          (game, s1) = createGame (storage e) uuid now rid (hash_c c);
          e' = e\<lparr>currentGame := Some g, roundIdCounter := rid, storage := s1,
                 countdownTimer := True\<rparr>
      in (e', [GameStateUpdate (getPublicGameState e')]))"

definition countdownTick :: "int \<Rightarrow> rat \<Rightarrow> CrashEngine \<Rightarrow> CrashEngine \<times> event list" where
  "countdownTick now r e =
     (case currentGame e of
        None \<Rightarrow> (e, [])
      | Some g \<Rightarrow>
          (let e1 = e\<lparr>currentGame := Some (g\<lparr>countdown := countdown g - 1\<rparr>)\<rparr>
           in if countdown g - 1 \<le> 0 then startFlying now r e1
              else (e1, [GameStateUpdate (getPublicGameState e1)])))"

subsection \<open>Player actions\<close>

definition failure :: "string \<Rightarrow> 'a Result" where
  "failure msg = \<lparr>success = False, message = msg, payload = None\<rparr>"

definition placeBet ::
  "int \<Rightarrow> string \<Rightarrow> string \<Rightarrow> string \<Rightarrow> string option \<Rightarrow> CrashEngine
     \<Rightarrow> string Result \<times> CrashEngine \<times> event list" where
  "placeBet now uuid uid amt aco e =
     (case currentGame e of
        None \<Rightarrow> (failure ''Betting is not available right now'', e, [])
      | Some g \<Rightarrow>
          if phase g \<noteq> Waiting then (failure ''Betting is not available right now'', e, [])
          else
            (case getUser (storage e) uid of
               None \<Rightarrow> (failure ''User not found'', e, [])
             | Some user \<Rightarrow>
                 (let betAmount = parseFloat amt;
                      userBalance = parseFloat (balance user)
                  in if js_le betAmount (Num 0)
                     then (failure ''Bet amount must be greater than 0'', e, [])
                     else if js_gt betAmount userBalance
                     then (failure ''Insufficient balance'', e, [])
                     else
                       (case getGameByRoundId (storage e) (roundId g) of
                          None \<Rightarrow> (failure ''Game not found'', e, [])
                        | Some gameFromDb \<Rightarrow>
                            if list_ex (\<lambda>bet. gameId bet = id_g gameFromDb \<and> isActive bet)
                                 (getBetsByUserId (storage e) uid)
                            then (failure ''You already have a bet placed for this round'', e, [])
                            else
                              (let newBalance = toFixed (js_sub userBalance betAmount) 2;
                                   s1 = updateUserBalance (storage e) uid newBalance;
                                   (bet, s2) = createBet s1 uuid now uid (id_g gameFromDb) amt aco
                               in (\<lparr>success = True, message = ''Bet placed successfully'',
                                     payload = Some (id_b bet)\<rparr>,
                                   e\<lparr>storage := s2\<rparr>,
                                   [BetPlaced uid betAmount
                                      (case aco of
                                         None \<Rightarrow> None
                                       | Some a \<Rightarrow> if a = [] then None else Some (parseFloat a))
                                      (roundId g)]))))))"

definition manualCashOut ::
  "int \<Rightarrow> string \<Rightarrow> CrashEngine \<Rightarrow> number Result \<times> CrashEngine \<times> event list" where
  "manualCashOut now uid e =
     (case currentGame e of
        None \<Rightarrow> (failure ''Cannot cash out right now'', e, [])
      | Some g \<Rightarrow>
          if phase g \<noteq> Flying then (failure ''Cannot cash out right now'', e, [])
          else
            (case getGameByRoundId (storage e) (roundId g) of
               None \<Rightarrow> (failure ''Game not found'', e, [])
             | Some gameFromDb \<Rightarrow>
                 (case find (\<lambda>bet. userId bet = uid)
                         (getActiveBetsByGameId (storage e) (id_g gameFromDb)) of
                    None \<Rightarrow> (failure ''No active bet found'', e, [])
                  | Some userBet \<Rightarrow>
                      (let m = numToString (multiplier g);
                           win = parseFloat
                                   (toFixed (js_mul (parseFloat (amount userBet)) (Num (multiplier g))) 2);
                           (e', ev) = cashOutBet now (id_b userBet) uid m e
                       in (\<lparr>success = True, message = ''Cashed out successfully'',
                             payload = Some win\<rparr>, e', ev)))))"

subsection \<open>The engine at start-up\<close>

definition initialStorage :: MemStorage where
  "initialStorage =
     \<lparr>users = [(''default-user'',
                 \<lparr>id_u = ''default-user'', username = Some ''Raj Kumar'', balance = ''12580.50''\<rparr>)],
      games = [], bets = []\<rparr>"

definition initialEngine :: CrashEngine where
  "initialEngine =
     \<lparr>currentGame = None, gameTimer = False, countdownTimer = False, roundIdCounter = 127534,
      gameEndTime = Num 0, storage = initialStorage\<rparr>"

section \<open>Observations and store invariants\<close>

text \<open>Betting is open when there is a current game and it is waiting.\<close>

definition bettingOpen :: "CrashEngine \<Rightarrow> bool" where
  "bettingOpen e = (case currentGame e of None \<Rightarrow> False | Some g \<Rightarrow> phase g = Waiting)"

text \<open>
  The store files every bet under its own identifier, and a \<open>Map\<close> has no key twice.
\<close>

definition keyedById :: "Bet jsmap \<Rightarrow> bool" where
  "keyedById m \<longleftrightarrow> distinct (map fst m) \<and> list_all (\<lambda>(k, b). id_b b = k) m"

text \<open>What \<open>updateBetCashOut\<close> writes into a bet.\<close>

definition settled :: "int \<Rightarrow> string \<Rightarrow> string \<Rightarrow> Bet \<Rightarrow> Bet" where
  "settled now cashOut win b =
     b\<lparr>cashOutAt := Some cashOut, winAmount := Some win, isActive := False,
       cashedOutAt := Some now\<rparr>"

text \<open>
  A reference and a bet of a fetched list agree when the bet filed under the reference
  has the identifier, the user and the threshold of the listed bet, the fields that no
  method writes after the bet is created.
\<close>

definition sameBet :: "CrashEngine \<Rightarrow> string \<Rightarrow> Bet \<Rightarrow> bool" where
  "sameBet e k b =
     (case Map_get (bets (storage e)) k of
        None \<Rightarrow> False
      | Some b' \<Rightarrow> id_b b' = id_b b \<and> userId b' = userId b \<and> autoCashOut b' = autoCashOut b)"

text \<open>
  The engines after each run of the flying callback at the given pairs of clock
  readings, and the multiplier a snapshot of an engine shows.
\<close>

fun runTicks :: "(int \<times> int) list \<Rightarrow> CrashEngine \<Rightarrow> CrashEngine list" where
  "runTicks [] e = []"
| "runTicks ((now, now') # ts) e = (let e' = fst (tick now now' e) in e' # runTicks ts e')"

definition shownMultiplier :: "CrashEngine \<Rightarrow> rat" where
  "shownMultiplier e = multiplier (getPublicGameState e)"

section \<open>A round, step by step\<close>

text \<open>
  The closed examples below run one round from the engine at start-up. \<open>demoDigest\<close>
  stands in for SHA-256 there; no example depends on what the digest computes. The
  round is created at clock 0, the default user bets 100 with the threshold 2.00 at
  4000, and the countdown runs from 1000 to 10000; only its last tick, which starts the
  flight, reads the clock and draws the random number.
\<close>

definition demoDigest :: "string \<Rightarrow> string" where
  "demoDigest data = ''sha256('' @ data @ '')''"

definition demoWaiting :: CrashEngine where
  "demoWaiting = fst (startNewRound demoDigest ''ab12'' ''game-1'' 0 initialEngine)"

definition demoBet :: CrashEngine where
  "demoBet = fst (snd (placeBet 4000 ''bet-1'' ''default-user'' ''100'' (Some ''2.00'') demoWaiting))"

definition demoLastSecond :: CrashEngine where
  "demoLastSecond = ((\<lambda>e. fst (countdownTick 0 0 e)) ^^ 9) demoBet"

text \<open>The flight with the draw \<open>1/2\<close>: the crash point is 1.98.\<close>

definition demoFlying :: CrashEngine where
  "demoFlying = fst (countdownTick 10000 (1 / 2) demoLastSecond)"

text \<open>The flight with the draw \<open>1/20\<close>: the crash point is 19.8.\<close>

definition demoLongFlight :: CrashEngine where
  "demoLongFlight = fst (countdownTick 10000 (1 / 20) demoLastSecond)"

text \<open>The rows of the example round: the user, the game and the bet as placed.\<close>

definition demoUser :: User where
  "demoUser = \<lparr>id_u = ''default-user'', username = Some ''Raj Kumar'', balance = ''12580.50''\<rparr>"

definition demoRow :: Game where
  "demoRow = \<lparr>id_g = ''game-1'', roundId_g = 127535, multiplier_g = ''0.00'',
              hash_g = ''sha256(127535:ab12)'', salt_g = None, startedAt = 0, crashedAt = None\<rparr>"

definition demoStoredBet :: Bet where
  "demoStoredBet = \<lparr>id_b = ''bet-1'', userId = ''default-user'', gameId = ''game-1'',
                    amount = ''100'', autoCashOut = Some ''2.00'', cashOutAt = None,
                    winAmount = None, isActive = True, placedAt = 4000, cashedOutAt = None\<rparr>"

definition demoGame :: "phase \<Rightarrow> rat \<Rightarrow> int \<Rightarrow> int \<Rightarrow> GameState" where
  "demoGame ph m t c = \<lparr>roundId = 127535, phase = ph, multiplier = m, startTime = t, duration = 0,
                        hash = ''sha256(127535:ab12)'', countdown = c, salt = Some ''ab12''\<rparr>"

text \<open>
  The engine of the example round with the given current game, timers, end time of the
  flight, balance of the user and bets.
\<close>

definition demoEngine :: "GameState \<Rightarrow> bool \<Rightarrow> bool \<Rightarrow> number \<Rightarrow> string \<Rightarrow> Bet list \<Rightarrow> CrashEngine" where
  "demoEngine g gt ct endTime bal bs =
     \<lparr>currentGame = Some g, gameTimer = gt, countdownTimer = ct, roundIdCounter = 127535,
      gameEndTime = endTime,
      storage = \<lparr>users = [(''default-user'', demoUser\<lparr>balance := bal\<rparr>)],
                 games = [(''game-1'', demoRow)],
                 bets = map (\<lambda>b. (id_b b, b)) bs\<rparr>\<rparr>"

text \<open>
  The long flight inside the tick at 20060, after the tick at 19940: the callback has
  set the multiplier to 2.01 and is about to run \<open>processAutoCashOuts\<close>.
\<close>

definition demoAtThreshold :: CrashEngine where
  "demoAtThreshold =
     (fst (tick 19940 19940 demoLongFlight))\<lparr>currentGame := Some (demoGame Flying (201 / 100) 10000 0)\<rparr>"

text \<open>
  The same round with the threshold 1.2 instead of 2.00: the bet as placed, the engine
  after the bet, at the start of the flight with the draw \<open>1/2\<close>, and after the tick at
  11900, which shows 1.19.
\<close>

definition demoLowBet :: Bet where
  "demoLowBet = demoStoredBet\<lparr>autoCashOut := Some ''1.2''\<rparr>"

definition demoLowPlaced :: CrashEngine where
  "demoLowPlaced
     = fst (snd (placeBet 4000 ''bet-1'' ''default-user'' ''100'' (Some ''1.2'') demoWaiting))"

definition demoLowFlying :: CrashEngine where
  "demoLowFlying
     = fst (countdownTick 10000 (1 / 2) (((\<lambda>e. fst (countdownTick 0 0 e)) ^^ 9) demoLowPlaced))"

definition demoLowMidFlight :: CrashEngine where
  "demoLowMidFlight = fst (tick 11900 11900 demoLowFlying)"

text \<open>
  The next tick of that flight, at 12000, which ends it, after its first \<open>n\<close>
  microtasks: the queue, the engine and the events so far.
\<close>

definition demoCrashTick :: "nat \<Rightarrow> task list \<times> CrashEngine \<times> event list" where
  "demoCrashTick n = microtasks n 12000 12000 (tickStart 12000 12000 demoLowMidFlight)"

section \<open>The example round, evaluated\<close>

lemma demoWaiting_code [code]:
  "demoWaiting = demoEngine (demoGame Waiting 1 0 10) False True (Num 0) ''12580.50'' []"
  by code_simp

lemma demoBet_code [code]:
  "demoBet = demoEngine (demoGame Waiting 1 0 10) False True (Num 0) ''12480.50'' [demoStoredBet]"
  by code_simp

lemma demoLastSecond_code [code]:
  "demoLastSecond
     = demoEngine (demoGame Waiting 1 0 1) False True (Num 0) ''12480.50'' [demoStoredBet]"
  by code_simp

lemma demoFlying_code [code]:
  "demoFlying
     = demoEngine (demoGame Flying 1 10000 0) True False (Num 11980) ''12480.50'' [demoStoredBet]"
  by code_simp

lemma demoLongFlight_code [code]:
  "demoLongFlight
     = demoEngine (demoGame Flying 1 10000 0) True False (Num 29800) ''12480.50'' [demoStoredBet]"
  by code_simp

lemma demoAtThreshold_code [code]:
  "demoAtThreshold
     = demoEngine (demoGame Flying (201 / 100) 10000 0) True False (Num 29800) ''12480.50''
         [demoStoredBet]"
  by code_simp

lemma demoLowPlaced_code [code]:
  "demoLowPlaced = demoEngine (demoGame Waiting 1 0 10) False True (Num 0) ''12480.50'' [demoLowBet]"
  by code_simp

lemma demoLowFlying_code [code]:
  "demoLowFlying
     = demoEngine (demoGame Flying 1 10000 0) True False (Num 11980) ''12480.50'' [demoLowBet]"
  by code_simp

lemma demoLowMidFlight_code [code]:
  "demoLowMidFlight
     = demoEngine (demoGame Flying (119 / 100) 10000 0) True False (Num 11980) ''12480.50''
         [demoLowBet]"
  by code_simp

section \<open>Commitments and snapshots\<close>

text \<open>
  Claim C8. A commitment verifies: for every round number, random salt and digest
  function, \<open>verifyHash\<close> accepts the salt and the hash that \<open>generateHash\<close> returned for
  that round.
\<close>

theorem verifyHash_generateHash:
  "verifyHash sha256 rid (salt_c (generateHash sha256 rnd rid))
     (hash_c (generateHash sha256 rnd rid))"
  by (simp add: verifyHash_def generateHash_def)

text \<open>
  Claim C9. The public snapshot has no salt: two engines that differ only in the salt of
  the current game give the same \<open>getPublicGameState\<close>.
\<close>

theorem getPublicGameState_hides_salt:
  "getPublicGameState (e\<lparr>currentGame := Some (g\<lparr>salt := s1\<rparr>)\<rparr>)
     = getPublicGameState (e\<lparr>currentGame := Some (g\<lparr>salt := s2\<rparr>)\<rparr>)"
  by (simp add: getPublicGameState_def PublicGameState.truncate_def)

section \<open>Bets of unknown players\<close>

text \<open>
  Claim C10, amended. \<open>placeBet\<close> for a player without a user record fails, leaves the
  engine as it was and emits nothing. The message is \<open>User not found\<close> when betting is
  open (a current game in the waiting phase), and the one of the phase check, which
  comes first, otherwise.
\<close>

theorem placeBet_unknown_user:
  assumes "getUser (storage e) uid = None"
  shows "placeBet now uuid uid amt aco e
           = (failure (if bettingOpen e then ''User not found''
                       else ''Betting is not available right now''), e, [])"
  using assms by (simp add: placeBet_def bettingOpen_def split: option.splits)

text \<open>In the waiting phase of the example round, an unknown player is told so.\<close>

theorem placeBet_unknown_user_witness:
  "placeBet 5000 ''bet-2'' ''ghost'' ''10'' None demoWaiting
     = (failure ''User not found'', demoWaiting, [])"
proof -
  have h: "getUser (storage demoWaiting) ''ghost'' = None" by code_simp
  have o: "bettingOpen demoWaiting" by code_simp
  show ?thesis
    using placeBet_unknown_user [OF h, of 5000 "''bet-2''" "''10''" None] o by simp
qed

text \<open>
  During the flight the same call fails with the message of the phase check, not with
  \<open>User not found\<close>.
\<close>

theorem placeBet_unknown_user_other_message:
  "getUser (storage demoFlying) ''ghost'' = None
   \<and> message (fst (placeBet 11000 ''bet-2'' ''ghost'' ''10'' None demoFlying))
       = ''Betting is not available right now''
   \<and> message (fst (placeBet 11000 ''bet-2'' ''ghost'' ''10'' None demoFlying))
       \<noteq> ''User not found''"
  by code_simp

section \<open>The crash point\<close>

text \<open>
  Claim C3, evaluated. The crash point is computed from the draw of \<open>Math.random()\<close>
  alone: for the same round (the same round number, salt and hash), the draws \<open>1/2\<close> and
  \<open>1/4\<close> give the crash points 1.98 and 3.96 and different end times of the flight.
\<close>

theorem crash_point_follows_draw:
  "generateCrashPoint (1 / 2) = Num (99 / 50)
   \<and> generateCrashPoint (1 / 4) = Num (99 / 25)
   \<and> gameEndTime (fst (countdownTick 10000 (1 / 2) demoLastSecond)) = Num 11980
   \<and> gameEndTime (fst (countdownTick 10000 (1 / 4) demoLastSecond)) = Num 13960"
  by code_simp

text \<open>
  Claim C4, evaluated. With the crash point 1.98 the flight that starts at 10000 ends at
  the first tick from 11980 on, where the multiplier is 1.2: the round crashes at the
  multiplier 1.2, not at its crash point.
\<close>

theorem crash_multiplier_not_crash_point:
  "generateCrashPoint (1 / 2) = Num (99 / 50)
   \<and> gameEndTime demoFlying = Num 11980
   \<and> map (\<lambda>e. (phase (getPublicGameState e), shownMultiplier e))
         (runTicks [(11700, 11700), (11800, 11800), (11900, 11900), (12000, 12000)] demoFlying)
       = [(Flying, 117 / 100), (Flying, 59 / 50), (Flying, 119 / 100), (Crashed, 6 / 5)]"
  by code_simp

section \<open>The multiplier of a flight\<close>

lemma cashOutBet_engine: "\<exists>s. fst (cashOutBet now bid uid m e) = e\<lparr>storage := s\<rparr>"
  by (cases "find (\<lambda>b. id_b b = bid \<and> isActive b) (getBetsByUserId (storage e) uid)")
     (auto simp: cashOutBet_def Let_def intro: exI [of _ "storage e"])

lemma cashOutBet_currentGame: "currentGame (fst (cashOutBet now bid uid m e)) = currentGame e"
  using cashOutBet_engine [of now bid uid m e] by auto

lemma step_engine: "\<exists>s. fst (step now now' t e) = e\<lparr>storage := s\<rparr>"
  by (cases t)
     (auto simp: crashFetch_def crashEnd_def Let_def intro: exI [of _ "storage e"]
           split: option.splits list.splits)

lemma drain_engine: "\<exists>s. fst (drain now now' q w) = (fst w)\<lparr>storage := s\<rparr>"
proof (induction now now' q w rule: drain.induct)
  case (1 now now' w)
  show ?case by (auto intro: exI [of _ "storage (fst w)"])
next
  case (2 now now' t q w)
  obtain e' ev ts where st: "step now now' t (fst w) = (e', ev, ts)"
    by (cases "step now now' t (fst w)")
  obtain s1 where s1: "e' = (fst w)\<lparr>storage := s1\<rparr>"
    using step_engine [of now now' t "fst w"] st by auto
  obtain s2 where "fst (drain now now' (q @ ts) (e', snd w @ ev)) = e'\<lparr>storage := s2\<rparr>"
    using "2.IH" [OF st [symmetric] refl] by auto
  with st s1 show ?case by auto
qed

lemma tick_currentGame:
  assumes "currentGame e = Some g"
  shows "currentGame (fst (tick now now' e))
           = Some (if phase g = Flying
                   then g\<lparr>multiplier := multiplierAt (now - startTime g),
                          phase := (if js_ge (Num (of_int now')) (gameEndTime e)
                                    then Crashed else Flying)\<rparr>
                   else g)"
proof -
  obtain q w where qw: "tickStart now now' e = (q, w)" by (cases "tickStart now now' e")
  obtain s where s: "fst (tick now now' e) = (fst w)\<lparr>storage := s\<rparr>"
    using drain_engine [of now now' q w] by (auto simp: tick_def qw)
  have "currentGame (fst w)
           = Some (if phase g = Flying
                   then g\<lparr>multiplier := multiplierAt (now - startTime g),
                          phase := (if js_ge (Num (of_int now')) (gameEndTime e)
                                    then Crashed else Flying)\<rparr>
                   else g)"
    using qw assms
    by (auto simp: tickStart_def startCrashGame_def Let_def split: if_splits)
  with s show ?thesis by simp
qed

lemma multiplierAt_mono: "a \<le> b \<Longrightarrow> multiplierAt a \<le> multiplierAt b"
  by (simp add: multiplierAt_def Math_round_def Let_def divide_right_mono floor_mono)

lemma multiplierAt_0: "multiplierAt 0 = 1"
  by code_simp

lemma shownMultiplier_Some: "currentGame e = Some g \<Longrightarrow> shownMultiplier e = multiplier g"
  by (simp add: shownMultiplier_def getPublicGameState_def PublicGameState.truncate_def)

lemma shownMultiplier_None: "currentGame e = None \<Longrightarrow> shownMultiplier e = 1"
  by (simp add: shownMultiplier_def getPublicGameState_def)

text \<open>
  The invariant of a run of ticks: the multiplier shown is at most the one that every
  later clock reading gives.
\<close>

lemma runTicks_sorted:
  assumes "currentGame e = Some g"
    and "\<forall>t \<in> set (map fst ts). multiplier g \<le> multiplierAt (t - startTime g)"
    and "sorted (map fst ts)"
  shows "sorted (shownMultiplier e # map shownMultiplier (runTicks ts e))"
  using assms
proof (induction ts arbitrary: e g)
  case Nil
  show ?case by simp
next
  case (Cons p ts)
  obtain now now' where p: "p = (now, now')" by (cases p)
  let ?e' = "fst (tick now now' e)"
  show ?case
  proof (cases "phase g = Flying")
    case False
    with Cons.prems(1) have same: "?e' = e" by (simp add: tick_def tickStart_def)
    have "sorted (shownMultiplier e # map shownMultiplier (runTicks ts e))"
      using Cons.IH [OF Cons.prems(1)] Cons.prems(2,3) by simp
    with same p show ?thesis by (simp add: Let_def)
  next
    case True
    define g' where "g' = g\<lparr>multiplier := multiplierAt (now - startTime g),
        phase := (if js_ge (Num (of_int now')) (gameEndTime e) then Crashed else Flying)\<rparr>"
    have cg: "currentGame ?e' = Some g'"
      using tick_currentGame [OF Cons.prems(1), of now now'] True by (simp add: g'_def)
    have le: "\<forall>t \<in> set (map fst ts). multiplier g' \<le> multiplierAt (t - startTime g')"
      using Cons.prems(3) p by (auto simp: g'_def intro!: multiplierAt_mono)
    have tl: "sorted (shownMultiplier ?e' # map shownMultiplier (runTicks ts ?e'))"
      using Cons.IH [OF cg le] Cons.prems(3) by simp
    have "shownMultiplier e \<le> shownMultiplier ?e'"
      using Cons.prems(1,2) cg p by (simp add: shownMultiplier_Some g'_def)
    with tl have "sorted (shownMultiplier e # shownMultiplier ?e'
                            # map shownMultiplier (runTicks ts ?e'))"
      by (metis sorted2)
    with p show ?thesis by (simp add: Let_def)
  qed
qed

lemma runTicks_None:
  "currentGame e = None \<Longrightarrow> map shownMultiplier (runTicks ts e) = replicate (length ts) 1"
proof (induction ts arbitrary: e)
  case Nil
  show ?case by simp
next
  case (Cons p ts)
  obtain now now' where p: "p = (now, now')" by (cases p)
  from Cons.prems have same: "fst (tick now now' e) = e" by (simp add: tick_def tickStart_def)
  with Cons p show ?case by (simp add: Let_def shownMultiplier_None)
qed

text \<open>
  Claim C7. \<open>startFlying\<close> at the clock reading \<open>t0\<close> sets the multiplier to 1, and when
  the clock readings of the ticks that follow do not go back (from \<open>t0\<close> on), the
  multipliers shown at the start and after each tick are non-decreasing.
\<close>

theorem flying_multiplier_monotone:
  assumes "sorted (t0 # map fst ts)"
  shows "shownMultiplier (fst (startFlying t0 r e)) = 1
         \<and> sorted (map shownMultiplier
                     (fst (startFlying t0 r e) # runTicks ts (fst (startFlying t0 r e))))"
proof (cases "currentGame e")
  case None
  then have same: "fst (startFlying t0 r e) = e" by (simp add: startFlying_def)
  with None show ?thesis
    by (simp add: shownMultiplier_None runTicks_None)
next
  case (Some g)
  let ?e1 = "fst (startFlying t0 r e)"
  let ?g1 = "g\<lparr>phase := Flying, multiplier := 1, startTime := t0\<rparr>"
  have cg: "currentGame ?e1 = Some ?g1"
    using Some by (simp add: startFlying_def Let_def)
  have le: "\<forall>t \<in> set (map fst ts). multiplier ?g1 \<le> multiplierAt (t - startTime ?g1)"
  proof
    fix t assume "t \<in> set (map fst ts)"
    with assms have "0 \<le> t - t0" by auto
    then have "multiplierAt 0 \<le> multiplierAt (t - t0)" by (rule multiplierAt_mono)
    then show "multiplier ?g1 \<le> multiplierAt (t - startTime ?g1)" by (simp add: multiplierAt_0)
  qed
  have "sorted (shownMultiplier ?e1 # map shownMultiplier (runTicks ts ?e1))"
    using runTicks_sorted [OF cg le] assms by simp
  with cg show ?thesis by (simp add: shownMultiplier_Some)
qed

text \<open>The first three ticks of the example flight, the second one a little late.\<close>

theorem flying_multiplier_monotone_witness:
  "shownMultiplier (fst (startFlying 10000 (1 / 2) demoBet)) = 1
   \<and> sorted (map shownMultiplier
               (fst (startFlying 10000 (1 / 2) demoBet)
                  # runTicks [(10100, 10100), (10230, 10231), (10300, 10300)]
                      (fst (startFlying 10000 (1 / 2) demoBet))))"
proof -
  have h: "sorted ((10000 :: int) # map fst [(10100, 10100 :: int), (10230, 10231), (10300, 10300)])"
    by simp
  show ?thesis by (rule flying_multiplier_monotone [OF h])
qed

section \<open>Reading back printed numbers\<close>

text \<open>
  The strings that the engine prints with \<open>toString\<close> are read again by \<open>parseFloat\<close>.
  This section shows what they read back as.
\<close>

lemma of_char_digitChar: "(of_char (digitChar d) :: nat) = 48 + d mod 10"
proof -
  have "(48 + d mod 10) mod 256 = 48 + d mod 10"
    by (rule mod_less) (use pos_mod_bound [of 10 d] in linarith)
  then show ?thesis by (simp add: digitChar_def)
qed

lemma isDigit_digitChar [simp]: "isDigit (digitChar d)"
  by (simp add: isDigit_def of_char_digitChar) 

lemma digitVal_digitChar [simp]: "digitVal (digitChar d) = d mod 10"
  by (simp add: digitVal_def of_char_digitChar)

lemma digitsVal_snoc: "digitsVal (ds @ [c]) = 10 * digitsVal ds + digitVal c"
  by (simp add: digitsVal_def)

lemma showNat_digits: "list_all isDigit (showNat n) \<and> showNat n \<noteq> []"
proof (induction n rule: showNat.induct)
  case (1 n)
  then show ?case by (cases "n < 10") (simp_all add: showNat.simps [of n])
qed

lemma digitsVal_showNat: "digitsVal (showNat n) = n"
proof (induction n rule: showNat.induct)
  case (1 n)
  show ?case
  proof (cases "n < 10")
    case True
    then show ?thesis by (simp add: showNat.simps [of n] digitsVal_def)
  next
    case False
    with 1 show ?thesis by (simp add: showNat.simps [of n] digitsVal_snoc)
  qed
qed

lemma not_digit_chars:
  "\<not> isDigit CHR ''.''" "\<not> isDigit CHR ''-''" "\<not> isDigit CHR ''+''" "\<not> isDigit CHR ''I''"
  "\<not> isDigit CHR ''e''" "\<not> isDigit CHR ''E''"
  by code_simp+

lemma digit_not_space: "isDigit c \<Longrightarrow> \<not> isSpace c"
  by (auto simp: isDigit_def isSpace_def)

lemma takeWhile_digits:
  "list_all isDigit ds \<Longrightarrow> \<not> isDigit c \<Longrightarrow> takeWhile isDigit (ds @ c # rest) = ds"
  by (induction ds) auto

lemma dropWhile_digits:
  "list_all isDigit ds \<Longrightarrow> \<not> isDigit c \<Longrightarrow> dropWhile isDigit (ds @ c # rest) = c # rest"
  by (induction ds) auto

lemma takeWhile_all: "list_all isDigit ds \<Longrightarrow> takeWhile isDigit ds = ds"
  by (induction ds) auto

lemma dropWhile_all: "list_all isDigit ds \<Longrightarrow> dropWhile isDigit ds = []"
  by (induction ds) auto

text \<open>Reading back a literal with a fraction, with and without a minus sign.\<close>

lemma parseFloat_literal:
  assumes ds: "list_all isDigit ds" "ds \<noteq> []" and fs: "list_all isDigit fs"
  shows "parseFloat (ds @ CHR ''.'' # fs)
           = Num (of_nat (digitsVal ds) + of_nat (digitsVal fs) / 10 ^ length fs)"
    and "parseFloat (CHR ''-'' # ds @ CHR ''.'' # fs)
           = Num (- (of_nat (digitsVal ds) + of_nat (digitsVal fs) / 10 ^ length fs))"
proof -
  define u where "u = ds @ CHR ''.'' # fs"
  from ds obtain d ds' where d: "ds = d # ds'" "isDigit d" by (cases ds) auto
  have nsp: "\<not> isSpace d" using d(2) by (rule digit_not_space)
  have nsg: "d \<noteq> CHR ''-''" "d \<noteq> CHR ''+''" "d \<noteq> CHR ''I''"
    using d(2) not_digit_chars by auto
  have sp: "dropWhile isSpace u = u" using nsp by (simp add: u_def d(1))
  have rs: "readSign u = (False, u)" using nsg by (simp add: readSign_def u_def d(1))
  have inf: "take 8 u \<noteq> ''Infinity''" using nsg by (simp add: u_def d(1) take_Cons')
  have tw: "takeWhile isDigit u = ds" and dw: "dropWhile isDigit u = CHR ''.'' # fs"
    using ds(1) not_digit_chars(1) by (simp_all add: u_def takeWhile_digits dropWhile_digits)
  have "parseFloat u = Num (of_nat (digitsVal ds) + of_nat (digitsVal fs) / 10 ^ length fs)"
    using fs ds(2)
    by (simp add: parseFloat_def sp rs inf tw dw takeWhile_all dropWhile_all
        readExponent_def pow10_def)
  then show "parseFloat (ds @ CHR ''.'' # fs)
           = Num (of_nat (digitsVal ds) + of_nat (digitsVal fs) / 10 ^ length fs)"
    by (simp add: u_def)
  have minus: "\<not> isSpace CHR ''-''" by code_simp
  have "parseFloat (CHR ''-'' # u)
          = Num (- (of_nat (digitsVal ds) + of_nat (digitsVal fs) / 10 ^ length fs))"
    using fs ds(2) minus
    by (simp add: parseFloat_def readSign_def inf tw dw takeWhile_all dropWhile_all
        readExponent_def pow10_def)
  then show "parseFloat (CHR ''-'' # ds @ CHR ''.'' # fs)
           = Num (- (of_nat (digitsVal ds) + of_nat (digitsVal fs) / 10 ^ length fs))"
    by (simp add: u_def)
qed

lemma digitsVal_two:
  assumes "k < 100"
  shows "digitsVal [digitChar (k div 10), digitChar (k mod 10)] = k"
proof -
  from assms have "k div 10 < 10" by simp
  then have "k div 10 mod 10 = k div 10" by simp
  then show ?thesis by (simp add: digitsVal_def)
qed

lemma parseFloat_integer:
  assumes ds: "list_all isDigit ds" "ds \<noteq> []"
  shows "parseFloat ds = Num (of_nat (digitsVal ds))"
proof -
  from ds obtain d ds' where d: "ds = d # ds'" "isDigit d" by (cases ds) auto
  have nsp: "\<not> isSpace d" using d(2) by (rule digit_not_space)
  have nsg: "d \<noteq> CHR ''-''" "d \<noteq> CHR ''+''" "d \<noteq> CHR ''I''"
    using d(2) not_digit_chars by auto
  have sp: "dropWhile isSpace ds = ds" using nsp by (simp add: d(1))
  have rs: "readSign ds = (False, ds)" using nsg by (simp add: readSign_def d(1))
  have inf: "take 8 ds \<noteq> ''Infinity''" using nsg by (simp add: d(1) take_Cons')
  show ?thesis
    using ds
    by (simp add: parseFloat_def sp rs inf takeWhile_all dropWhile_all readExponent_def pow10_def
          digitsVal_def [of "[]"])
qed

lemma fracDigits_hundredths:
  assumes "k < 100"
  shows "fracDigits 20 (of_nat k / 100)
           = (if k = 0 then []
              else if k mod 10 = 0 then [digitChar (k div 10)]
              else [digitChar (k div 10), digitChar (k mod 10)])"
proof -
  have f1: "\<lfloor>(of_nat k / 100 :: rat) * 10\<rfloor> = int (k div 10)"
  proof -
    have "(of_nat k / 100 :: rat) * 10 = of_nat k / of_nat 10" by simp
    then show ?thesis by (simp only: floor_divide_of_nat_eq)
  qed
  have r1: "(of_nat k / 100 :: rat) * 10 - of_int (int (k div 10)) = of_nat (k mod 10) / 10"
  proof -
    have "(of_nat k :: rat) = of_nat (k div 10 * 10 + k mod 10)" by simp
    also have "\<dots> = of_nat (k div 10) * 10 + of_nat (k mod 10)"
      by (simp only: of_nat_add of_nat_mult of_nat_numeral)
    finally show ?thesis by (simp add: field_simps)
  qed
  have f2: "\<lfloor>(of_nat (k mod 10) / 10 :: rat) * 10\<rfloor> = int (k mod 10)" by simp
  have r2: "(of_nat (k mod 10) / 10 :: rat) * 10 - of_int (int (k mod 10)) = 0" by simp
  have s20: "(20 :: nat) = Suc (Suc (Suc 17))" by simp
  show ?thesis
    unfolding s20
    by (simp only: fracDigits.simps f1 r1 f2 r2 nat_int) simp
qed

lemma numToString_hundredths:
  "numToString (of_nat n / 100)
     = showNat (n div 100)
         @ (if n mod 100 = 0 then []
            else if n mod 100 mod 10 = 0 then CHR ''.'' # [digitChar (n mod 100 div 10)]
            else CHR ''.'' # [digitChar (n mod 100 div 10), digitChar (n mod 100 mod 10)])"
proof -
  let ?q = "of_nat n / 100 :: rat"
  have fl: "\<lfloor>?q\<rfloor> = int (n div 100)"
  proof -
    have "?q = of_nat n / of_nat 100" by simp
    then show ?thesis by (simp only: floor_divide_of_nat_eq)
  qed
  have fr: "?q - of_int (int (n div 100)) = of_nat (n mod 100) / 100"
  proof -
    have "(of_nat n :: rat) = of_nat (n div 100 * 100 + n mod 100)" by simp
    also have "\<dots> = of_nat (n div 100) * 100 + of_nat (n mod 100)"
      by (simp only: of_nat_add of_nat_mult of_nat_numeral)
    finally show ?thesis by (simp add: field_simps)
  qed
  have k: "n mod 100 < 100" by simp
  have nn: "\<bar>?q\<bar> = ?q" "\<not> ?q < 0" by simp_all
  have "numToString ?q
          = showNat (n div 100)
              @ (if fracDigits 20 (of_nat (n mod 100) / 100) = [] then []
                 else CHR ''.'' # fracDigits 20 (of_nat (n mod 100) / 100))"
    by (simp only: numToString_def Let_def nn fl fr nat_int if_False)
  then show ?thesis by (simp add: fracDigits_hundredths [OF k])
qed

text \<open>A multiplier in hundredths printed by \<open>toString\<close> reads back as itself.\<close>

lemma parseFloat_numToString:
  "parseFloat (numToString (of_nat n / 100)) = Num (of_nat n / 100)"
proof -
  define ds where "ds = showNat (n div 100)"
  define k where "k = n mod 100"
  have dsd: "list_all isDigit ds" "ds \<noteq> []"
    using showNat_digits [of "n div 100"] by (simp_all add: ds_def)
  have dv: "digitsVal ds = n div 100" by (simp add: ds_def digitsVal_showNat)
  have k: "k < 100" by (simp add: k_def)
  have "(of_nat n :: rat) = of_nat (n div 100 * 100 + n mod 100)" by simp
  also have "\<dots> = of_nat (n div 100) * 100 + of_nat k"
    by (simp only: of_nat_add of_nat_mult of_nat_numeral k_def)
  finally have val: "(of_nat (n div 100) + of_nat k / 100 :: rat) = of_nat n / 100"
    by (simp add: field_simps)
  consider "k = 0" | "k \<noteq> 0" "k mod 10 = 0" | "k mod 10 \<noteq> 0" by blast
  then show ?thesis
  proof cases
    case 1
    with val show ?thesis
      by (simp add: numToString_hundredths k_def [symmetric] ds_def [symmetric]
            parseFloat_integer [OF dsd] dv)
  next
    case 2
    have fs: "list_all isDigit [digitChar (k div 10)]" by simp
    from k have "k div 10 < 10" by simp
    then have fv: "digitsVal [digitChar (k div 10)] = k div 10" by (simp add: digitsVal_def)
    from 2 have "k = k div 10 * 10" by (metis mult_div_mod_eq add.right_neutral mult.commute)
    then have "(of_nat k :: rat) = of_nat (k div 10) * 10" by (metis of_nat_mult of_nat_numeral)
    with val have "(of_nat (n div 100) + of_nat (k div 10) / 10 :: rat) = of_nat n / 100" by simp
    with 2 show ?thesis
      by (simp add: numToString_hundredths k_def [symmetric] ds_def [symmetric]
            parseFloat_literal(1) [OF dsd fs] dv fv)
  next
    case 3
    have fs: "list_all isDigit [digitChar (k div 10), digitChar (k mod 10)]" by simp
    have fv: "digitsVal [digitChar (k div 10), digitChar (k mod 10)] = k" by (rule digitsVal_two [OF k])
    from 3 have k0: "k \<noteq> 0" by auto
    with 3 val show ?thesis
      by (simp add: numToString_hundredths k_def [symmetric] ds_def [symmetric]
            parseFloat_literal(1) [OF dsd fs] dv fv)
  qed
qed

lemma parseFloat_numToString_multiplierAt:
  assumes "0 \<le> elapsed"
  shows "parseFloat (numToString (multiplierAt elapsed)) = Num (multiplierAt elapsed)"
proof -
  define r where "r = Math_round ((1 + (of_int elapsed / 1000) * (1 / 10)) * 100)"
  from assms have "0 \<le> (1 + (of_int elapsed / 1000) * (1 / 10)) * 100 + (1 / 2 :: rat)" by simp
  then have "0 \<le> r" unfolding r_def Math_round_def by (simp only: zero_le_floor)
  then have n: "(of_int r :: rat) = of_nat (nat r)" by (simp only: of_nat_nat)
  have m: "multiplierAt elapsed = of_int r / 100"
    by (simp add: multiplierAt_def Let_def r_def)
  show ?thesis unfolding m n by (rule parseFloat_numToString)
qed

section \<open>The store under its invariant\<close>

lemma Map_get_Map_set: "Map_get (Map_set m k v) k' = (if k' = k then Some v else Map_get m k')"
  by (simp add: Map_get_def Map_set_def update_conv')

lemma list_all_update:
  "list_all P m \<Longrightarrow> P (k, v) \<Longrightarrow> list_all P (AList.update k v m)"
  by (induction m) auto

lemma keyedById_Map_set: "keyedById m \<Longrightarrow> id_b v = k \<Longrightarrow> keyedById (Map_set m k v)"
  by (simp add: keyedById_def Map_set_def distinct_update list_all_update)

lemma keyed_value:
  assumes "keyedById m" and "b \<in> set (Map_values m)"
  shows "Map_get m (id_b b) = Some b"
proof -
  from assms(2) obtain k where kb: "(k, b) \<in> set m" by (auto simp: Map_values_def)
  with assms(1) have "id_b b = k" by (auto simp: keyedById_def list_all_iff)
  with kb assms(1) show ?thesis by (simp add: keyedById_def Map_get_def)
qed

lemma keyed_get:
  assumes "keyedById m" and "Map_get m k = Some b"
  shows "id_b b = k \<and> b \<in> set (Map_values m)"
proof -
  from assms(2) have kb: "(k, b) \<in> set m" by (simp add: Map_get_def map_of_SomeD)
  with assms(1) have "id_b b = k" by (auto simp: keyedById_def list_all_iff)
  moreover from kb have "b \<in> set (Map_values m)" by (force simp: Map_values_def)
  ultimately show ?thesis by simp
qed

text \<open>The bet that \<open>cashOutBet\<close> finds is the one filed under the identifier.\<close>

lemma find_target:
  assumes "keyedById m"
  shows "find (\<lambda>b. id_b b = bid \<and> isActive b) (filter (\<lambda>b. userId b = uid) (Map_values m))
           = (case Map_get m bid of
                None \<Rightarrow> None
              | Some b0 \<Rightarrow> if isActive b0 \<and> userId b0 = uid then Some b0 else None)"
proof (cases "find (\<lambda>b. id_b b = bid \<and> isActive b) (filter (\<lambda>b. userId b = uid) (Map_values m))")
  case None
  then have no: "\<forall>x \<in> set (Map_values m). userId x = uid \<longrightarrow> \<not> (id_b x = bid \<and> isActive x)"
    by (auto simp: find_None_iff)
  show ?thesis
  proof (cases "Map_get m bid")
    case N: None
    with None show ?thesis by simp
  next
    case (Some b0)
    with keyed_get [OF assms Some] no None show ?thesis by auto
  qed
next
  case (Some x)
  let ?xs = "filter (\<lambda>b. userId b = uid) (Map_values m)"
  from Some obtain i where "i < length ?xs" and px: "id_b (?xs ! i) = bid \<and> isActive (?xs ! i)"
    and x: "x = ?xs ! i"
    unfolding find_Some_iff by blast
  then have "x \<in> set ?xs" by (simp only: nth_mem)
  then have "x \<in> set (Map_values m)" and "userId x = uid" by simp_all
  moreover from px x have "id_b x = bid" and "isActive x" by simp_all
  ultimately show ?thesis using keyed_value [OF assms, of x] Some by simp
qed

lemma settled_fields [simp]:
  "id_b (settled now c w b) = id_b b"
  "userId (settled now c w b) = userId b"
  "gameId (settled now c w b) = gameId b"
  "amount (settled now c w b) = amount b"
  "isActive (settled now c w b) = False"
  "cashOutAt (settled now c w b) = Some c"
  "winAmount (settled now c w b) = Some w"
  by (simp_all add: settled_def)

lemma updateBetCashOut_bets:
  "bets (updateBetCashOut s now bid c w)
     = (case Map_get (bets s) bid of
          None \<Rightarrow> bets s
        | Some b \<Rightarrow> Map_set (bets s) bid (settled now c w b))"
  by (simp add: updateBetCashOut_def settled_def split: option.splits)

lemma updateUserBalance_bets: "bets (updateUserBalance s uid nb) = bets s"
  by (simp add: updateUserBalance_def split: option.splits)

lemma active_bet_listed:
  assumes "keyedById (bets s)" and "Map_get (bets s) k = Some b" and "isActive b"
    and "gameId b = gid"
  shows "b \<in> set (getActiveBetsByGameId s gid) \<and> id_b b = k"
  using keyed_get [OF assms(1,2)] assms(3,4) by (simp add: getActiveBetsByGameId_def)

lemma cashOutBet_bets:
  assumes "keyedById (bets (storage e))"
  shows "bets (storage (fst (cashOutBet now bid uid m e)))
           = (case Map_get (bets (storage e)) bid of
                None \<Rightarrow> bets (storage e)
              | Some b0 \<Rightarrow>
                  if isActive b0 \<and> userId b0 = uid
                  then Map_set (bets (storage e)) bid
                         (settled now m (toFixed (js_mul (parseFloat (amount b0)) (parseFloat m)) 2) b0)
                  else bets (storage e))"
  using find_target [OF assms, of bid uid]
  by (auto simp: cashOutBet_def getBetsByUserId_def Let_def updateBetCashOut_bets
        updateUserBalance_bets split: option.splits)

lemma cashOutBet_keyed:
  assumes "keyedById (bets (storage e))"
  shows "keyedById (bets (storage (fst (cashOutBet now bid uid m e))))"
proof (cases "Map_get (bets (storage e)) bid")
  case None
  with assms show ?thesis by (simp add: cashOutBet_bets)
next
  case (Some b0)
  with keyed_get [OF assms Some] assms show ?thesis
    by (simp add: cashOutBet_bets keyedById_Map_set)
qed

lemma cashOutBet_get:
  assumes "keyedById (bets (storage e))"
  shows "Map_get (bets (storage (fst (cashOutBet now bid uid m e)))) k
           = (case Map_get (bets (storage e)) k of
                None \<Rightarrow> None
              | Some b0 \<Rightarrow>
                  if k = bid \<and> isActive b0 \<and> userId b0 = uid
                  then Some (settled now m (toFixed (js_mul (parseFloat (amount b0)) (parseFloat m)) 2) b0)
                  else Some b0)"
  by (auto simp: cashOutBet_bets [OF assms] Map_get_Map_set split: option.splits)

text \<open>
  What the loop of \<open>processAutoCashOuts\<close> leaves under each identifier: an active bet is
  settled when the list has a bet of that identifier and user whose threshold the live
  multiplier has reached, and every other bet stays as it was.
\<close>

lemma autoCashOutLoop_get:
  assumes "keyedById (bets (storage e))" and "currentGame e = Some g"
  shows "Map_get (bets (storage (fst (autoCashOutLoop now bs e)))) k
           = (case Map_get (bets (storage e)) k of
                None \<Rightarrow> None
              | Some b0 \<Rightarrow>
                  if isActive b0
                     \<and> (\<exists>b \<in> set bs. id_b b = k \<and> userId b = userId b0
                                       \<and> autoCashOutReached b (multiplier g))
                  then Some (settled now (numToString (multiplier g))
                               (toFixed (js_mul (parseFloat (amount b0))
                                           (parseFloat (numToString (multiplier g)))) 2) b0)
                  else Some b0)"
  using assms
proof (induction bs arbitrary: e)
  case Nil
  show ?case by (simp split: option.splits)
next
  case (Cons bet rest)
  show ?case
  proof (cases "autoCashOutReached bet (multiplier g)")
    case False
    with Cons.prems Cons.IH [OF Cons.prems] show ?thesis
      by (auto split: option.splits)
  next
    case True
    let ?e1 = "fst (cashOutBet now (id_b bet) (userId bet) (numToString (multiplier g)) e)"
    have k1: "keyedById (bets (storage ?e1))" by (rule cashOutBet_keyed [OF Cons.prems(1)])
    have g1: "currentGame ?e1 = Some g" using Cons.prems(2) by (simp add: cashOutBet_currentGame)
    have step: "fst (autoCashOutLoop now (bet # rest) e) = fst (autoCashOutLoop now rest ?e1)"
      using Cons.prems(2) True by (simp add: split_beta)
    show ?thesis
      unfolding step Cons.IH [OF k1 g1] cashOutBet_get [OF Cons.prems(1)]
      using True by (auto split: option.splits)
  qed
qed

section \<open>The tasks of a tick and the methods run alone\<close>

text \<open>
  In a tick that does not end the flight the queue holds the tasks of
  \<open>processAutoCashOuts\<close> alone, one at a time. This section shows that they do then what
  the method run alone does.
\<close>

lemma drain_single:
  "drain now now' [t] w
     = (case step now now' t (fst w) of (e', ev, ts) \<Rightarrow> drain now now' ts (e', snd w @ ev))"
  by simp

lemma keyed_member:
  assumes "keyedById m" and "(k, b) \<in> set m"
  shows "Map_get m k = Some b" and "id_b b = k"
  using assms by (auto simp: keyedById_def Map_get_def list_all_iff)

text \<open>The search of \<open>cashOutBet\<close> over the user's bets, by reference.\<close>

lemma find_ref:
  assumes "keyedById m"
  shows "find (\<lambda>k. case Map_get m k of None \<Rightarrow> False | Some b \<Rightarrow> id_b b = bid \<and> isActive b)
              (map fst (filter (\<lambda>(k, b). userId b = uid) m))
           = (case Map_get m bid of
                None \<Rightarrow> None
              | Some b0 \<Rightarrow> if isActive b0 \<and> userId b0 = uid then Some bid else None)"
    (is "find ?P ?ks = _")
proof (cases "find ?P ?ks")
  case None
  then have no: "\<forall>k \<in> set ?ks. \<not> ?P k" unfolding find_None_iff by blast
  show ?thesis
  proof (cases "Map_get m bid")
    case N: None
    with None show ?thesis by simp
  next
    case (Some b0)
    from keyed_get [OF assms Some] have i: "id_b b0 = bid" by simp
    from Some have mem: "(bid, b0) \<in> set m" by (simp add: Map_get_def map_of_SomeD)
    have "\<not> (isActive b0 \<and> userId b0 = uid)"
    proof
      assume a: "isActive b0 \<and> userId b0 = uid"
      with mem have "bid \<in> set ?ks" by force
      with no have "\<not> ?P bid" by blast
      with Some i a show False by simp
    qed
    with None Some show ?thesis by simp
  qed
next
  case (Some k)
  then obtain i where "i < length ?ks" and pk: "?P (?ks ! i)" and k: "k = ?ks ! i"
    unfolding find_Some_iff by blast
  then have "k \<in> set ?ks" by (simp only: nth_mem)
  then obtain b where mem: "(k, b) \<in> set m" and u: "userId b = uid" by auto
  from keyed_member [OF assms mem] have g: "Map_get m k = Some b" and "id_b b = k" by simp_all
  with pk k have "k = bid" and "isActive b" by simp_all
  with g u Some show ?thesis by simp
qed

text \<open>The tasks of \<open>cashOutBet\<close> do what \<open>cashOutBet\<close> does, and then the loop goes on.\<close>

lemma cashOutBet_tasks:
  assumes "keyedById (bets (storage e))"
  shows "drain now now' [COB_find bid uid m (getBetRefsByUserId (storage e) uid) rest] (e, ev)
           = drain now now' [PAC_loop rest]
               (fst (cashOutBet now bid uid m e), ev @ snd (cashOutBet now bid uid m e))"
  using find_ref [OF assms, of bid uid] find_target [OF assms, of bid uid]
  by (auto simp: cashOutBet_def getBetsByUserId_def getBetRefsByUserId_def getUser_def Let_def
        updateBetCashOut_def updateUserBalance_def
        split: option.splits if_splits)

lemma sameBet_cashOutBet:
  assumes "keyedById (bets (storage e))" and "sameBet e k b"
  shows "sameBet (fst (cashOutBet now bid uid m e)) k b"
  using assms(2)
  by (auto simp: sameBet_def cashOutBet_get [OF assms(1)] settled_def split: option.splits)

lemma autoCashOutLoop_tasks:
  assumes "keyedById (bets (storage e))" and "list_all2 (sameBet e) refs bs"
  shows "drain now now' (autoCashOutNext e refs) (e, ev)
           = (fst (autoCashOutLoop now bs e), ev @ snd (autoCashOutLoop now bs e))"
  using assms
proof (induction refs arbitrary: bs e ev)
  case Nil
  then show ?case by simp
next
  case (Cons k refs bs0)
  from Cons.prems(2) obtain b bs where bs0: "bs0 = b # bs" and h1: "sameBet e k b"
    and h2: "list_all2 (sameBet e) refs bs"
    by (auto simp: list_all2_Cons1)
  note kb = Cons.prems(1)
  from h1 obtain b' where g: "Map_get (bets (storage e)) k = Some b'"
    and f: "id_b b' = id_b b" "userId b' = userId b" "autoCashOut b' = autoCashOut b"
    by (auto simp: sameBet_def split: option.splits)
  have r: "autoCashOutReached b' x = autoCashOutReached b x" for x
    by (simp add: autoCashOutReached_def f)
  show ?case
  proof (cases "currentGame e")
    case None
    with g bs0 show ?thesis by simp
  next
    case (Some gm)
    show ?thesis
    proof (cases "autoCashOutReached b (multiplier gm)")
      case False
      with g Some r bs0 Cons.IH [OF kb h2] show ?thesis by simp
    next
      case True
      let ?c = "cashOutBet now (id_b b) (userId b) (numToString (multiplier gm)) e"
      have k1: "keyedById (bets (storage (fst ?c)))" by (rule cashOutBet_keyed [OF kb])
      have "list_all2 (sameBet (fst ?c)) refs bs"
        using h2 sameBet_cashOutBet [OF kb]
        by (auto elim!: list_all2_mono)
      from Cons.IH [OF k1 this, of "ev @ snd ?c"]
      have "drain now now' [PAC_loop refs] (fst ?c, ev @ snd ?c)
              = (fst (autoCashOutLoop now bs (fst ?c)), ev @ snd ?c @ snd (autoCashOutLoop now bs (fst ?c)))"
        by simp
      with g Some r True f bs0 cashOutBet_tasks [OF kb, of now now' "id_b b" "userId b"
          "numToString (multiplier gm)" refs ev]
      show ?thesis by (simp add: split_beta Let_def)
    qed
  qed
qed

lemma active_refs:
  assumes "keyedById (bets (storage e))"
  shows "list_all2 (sameBet e) (getActiveBetRefs (storage e) gid)
           (getActiveBetsByGameId (storage e) gid)"
proof -
  let ?m = "bets (storage e)"
  let ?xs = "filter (\<lambda>(k, bet). gameId bet = gid \<and> isActive bet) ?m"
  have v: "getActiveBetsByGameId (storage e) gid = map snd ?xs"
    by (simp add: getActiveBetsByGameId_def Map_values_def filter_map o_def case_prod_unfold)
  have "\<forall>x \<in> set ?xs. sameBet e (fst x) (snd x)"
    using keyed_member(1) [OF assms] by (auto simp: sameBet_def)
  then show ?thesis
    by (simp add: v getActiveBetRefs_def list_all2_map1 list_all2_map2 list_all2_same)
qed

lemma processAutoCashOuts_tasks:
  assumes "keyedById (bets (storage e))"
  shows "drain now now' (startProcessAutoCashOuts e) (e, ev)
           = (fst (processAutoCashOuts now e), ev @ snd (processAutoCashOuts now e))"
  using autoCashOutLoop_tasks [OF assms active_refs [OF assms], of now now' _ ev]
  by (simp add: startProcessAutoCashOuts_def processAutoCashOuts_def split: option.splits)

text \<open>
  A tick before the end of the flight sets the multiplier, runs \<open>processAutoCashOuts\<close>
  and emits the state it had set.
\<close>

lemma tick_in_flight:
  assumes "keyedById (bets (storage e))" and "currentGame e = Some g" and "phase g = Flying"
    and "\<not> js_ge (Num (of_int now')) (gameEndTime e)"
  shows "tick now now' e
           = (let e1 = e\<lparr>currentGame := Some (g\<lparr>multiplier := multiplierAt (now - startTime g)\<rparr>)\<rparr>;
                  (e2, ev2) = processAutoCashOuts now e1
              in (e2, GameStateUpdate (getPublicGameState e1) # ev2))"
  using assms
    processAutoCashOuts_tasks [of "e\<lparr>currentGame := Some (g\<lparr>multiplier := multiplierAt (now - startTime g)\<rparr>)\<rparr>"
      now now']
  by (simp add: tick_def tickStart_def Let_def split_beta)

section \<open>Settlement happens once\<close>

text \<open>
  The gate of \<open>cashOutBet\<close>: when no stored bet with the identifier is active, it
  returns the engine as it was and emits nothing.
\<close>

lemma cashOutBet_settled:
  assumes "\<forall>b \<in> set (Map_values (bets (storage e))). id_b b = bid \<longrightarrow> \<not> isActive b"
  shows "cashOutBet now bid uid m e = (e, [])"
proof -
  have "find (\<lambda>b. id_b b = bid \<and> isActive b) (getBetsByUserId (storage e) uid) = None"
    using assms by (auto simp: find_None_iff getBetsByUserId_def Map_values_def)
  then show ?thesis by (simp add: cashOutBet_def)
qed

text \<open>
  Claim C1, evaluated on the tick that ends a flight. A bet of 100 with the threshold
  1.2 is active when the flight that started at 10000 with the end time 11980 comes to
  its tick at 12000, which shows 1.2. The callback leaves the first task of
  \<open>processAutoCashOuts\<close> and the first task of \<open>crashGame\<close> in the queue. After four
  microtasks \<open>crashGame\<close> holds its list of active bets, with this bet in it, and
  \<open>cashOutBet\<close> is about to look for the bet, which is still as it was placed. The
  fifth microtask settles the bet at 1.2 with 120.00. The sixth, the sweep of
  \<open>crashGame\<close>, writes the settled bet again, as a loss. The queue is empty after eleven
  microtasks.
\<close>

theorem crash_sweep_writes_settled_bet:
  "fst (demoCrashTick 0) = [PAC_game (Some demoRow), CG_crash (Some demoRow) (6 / 5)]
   \<and> fst (demoCrashTick 4)
       = [COB_find ''bet-1'' ''default-user'' ''1.2'' [''bet-1''] [], CG_sweep [''bet-1''] (6 / 5)]
   \<and> Map_get (bets (storage (fst (snd (demoCrashTick 4))))) ''bet-1'' = Some demoLowBet
   \<and> isActive demoLowBet
   \<and> Map_get (bets (storage (fst (snd (demoCrashTick 5))))) ''bet-1''
       = Some (settled 12000 ''1.2'' ''120.00'' demoLowBet)
   \<and> \<not> isActive (settled 12000 ''1.2'' ''120.00'' demoLowBet)
   \<and> Map_get (bets (storage (fst (snd (demoCrashTick 6))))) ''bet-1''
       = Some (settled 12000 ''0.00'' ''0.00'' demoLowBet)
   \<and> settled 12000 ''0.00'' ''0.00'' demoLowBet \<noteq> settled 12000 ''1.2'' ''120.00'' demoLowBet
   \<and> fst (demoCrashTick 11) = []
   \<and> tick 12000 12000 demoLowMidFlight = snd (demoCrashTick 11)"
  by code_simp

section \<open>Payouts\<close>


section \<open>Automatic cash-outs\<close>

text \<open>
  Claim C2, amended. In a store that files bets under their identifiers, an active bet
  of the current round whose threshold the live multiplier has reached is settled by
  \<open>processAutoCashOuts\<close> at the live multiplier of the tick: \<open>cashOutAt\<close> is the live
  multiplier as a string, and \<open>winAmount\<close> is the product of the amount and that
  multiplier printed with two fraction digits. The string of a multiplier that a tick
  computed reads back as that multiplier. The threshold only decides whether the bet is
  settled in this tick.
\<close>

theorem auto_cash_out_uses_live_multiplier:
  assumes "keyedById (bets (storage e))"
    and "currentGame e = Some g"
    and "getGameByRoundId (storage e) (roundId g) = Some gdb"
    and "Map_get (bets (storage e)) k = Some b"
    and "isActive b" and "gameId b = id_g gdb"
    and "autoCashOutReached b (multiplier g)"
  shows "Map_get (bets (storage (fst (processAutoCashOuts now e)))) k
           = Some (settled now (numToString (multiplier g))
                     (toFixed (js_mul (parseFloat (amount b))
                                 (parseFloat (numToString (multiplier g)))) 2) b)
         \<and> (\<forall>elapsed. 0 \<le> elapsed \<and> multiplier g = multiplierAt elapsed \<longrightarrow>
                parseFloat (numToString (multiplier g)) = Num (multiplier g))"
proof -
  have "b \<in> set (getActiveBetsByGameId (storage e) (id_g gdb))" and "id_b b = k"
    using active_bet_listed [OF assms(1,4,5,6)] by simp_all
  then have "\<exists>b' \<in> set (getActiveBetsByGameId (storage e) (id_g gdb)).
               id_b b' = k \<and> userId b' = userId b \<and> autoCashOutReached b' (multiplier g)"
    using assms(7) by blast
  then have "Map_get (bets (storage (fst (processAutoCashOuts now e)))) k
           = Some (settled now (numToString (multiplier g))
                     (toFixed (js_mul (parseFloat (amount b))
                                 (parseFloat (numToString (multiplier g)))) 2) b)"
    using assms(2,3,4,5)
    by (simp add: processAutoCashOuts_def autoCashOutLoop_get [OF assms(1,2)])
  moreover have "\<forall>elapsed. 0 \<le> elapsed \<and> multiplier g = multiplierAt elapsed \<longrightarrow>
                   parseFloat (numToString (multiplier g)) = Num (multiplier g)"
    using parseFloat_numToString_multiplierAt by auto
  ultimately show ?thesis by (rule conjI)
qed

text \<open>
  In the tick at 20060 of the long example flight, 10060 after its start, the multiplier
  is 2.01, and the bet of 100 with the threshold 2.00 is settled at 2.01 with 201.00.
\<close>

theorem auto_cash_out_uses_live_multiplier_witness:
  "Map_get (bets (storage (fst (processAutoCashOuts 20060 demoAtThreshold)))) ''bet-1''
     = Some (settled 20060 ''2.01'' ''201.00'' demoStoredBet)
   \<and> parseFloat ''2.01'' = Num (201 / 100)"
proof -
  let ?g = "demoGame Flying (201 / 100) 10000 0"
  have h1: "keyedById (bets (storage demoAtThreshold))" by code_simp
  have h2: "currentGame demoAtThreshold = Some ?g" by code_simp
  have h3: "getGameByRoundId (storage demoAtThreshold) (roundId ?g) = Some demoRow" by code_simp
  have h4: "Map_get (bets (storage demoAtThreshold)) ''bet-1'' = Some demoStoredBet" by code_simp
  have h5: "isActive demoStoredBet" by code_simp
  have h6: "gameId demoStoredBet = id_g demoRow" by code_simp
  have h7: "autoCashOutReached demoStoredBet (multiplier ?g)" by code_simp
  have m: "numToString (multiplier ?g) = ''2.01''" by code_simp
  have w: "toFixed (js_mul (parseFloat (amount demoStoredBet)) (parseFloat ''2.01'')) 2 = ''201.00''"
    by code_simp
  have t: "(0 :: int) \<le> 10060 \<and> multiplier ?g = multiplierAt 10060" by code_simp
  have v: "multiplier ?g = 201 / 100" by code_simp
  note live = auto_cash_out_uses_live_multiplier [OF h1 h2 h3 h4 h5 h6 h7, of 20060]
  from live have "Map_get (bets (storage (fst (processAutoCashOuts 20060 demoAtThreshold)))) ''bet-1''
      = Some (settled 20060 (numToString (multiplier ?g))
                (toFixed (js_mul (parseFloat (amount demoStoredBet))
                            (parseFloat (numToString (multiplier ?g)))) 2) demoStoredBet)"
    by (rule conjunct1)
  then have c: "Map_get (bets (storage (fst (processAutoCashOuts 20060 demoAtThreshold)))) ''bet-1''
      = Some (settled 20060 ''2.01'' ''201.00'' demoStoredBet)"
    by (simp only: m w)
  from live t have "parseFloat (numToString (multiplier ?g)) = Num (multiplier ?g)"
    by blast
  then have "parseFloat ''2.01'' = Num (multiplier ?g)"
    by (simp only: m)
  then have r: "parseFloat ''2.01'' = Num (201 / 100)"
    by (simp only: v)
  from c r show ?thesis by (rule conjI)
qed

text \<open>
  The claim as stated fails on that flight: the tick at 19940 shows 1.99 and leaves the
  bet active, the next one at 20060 shows 2.01 and settles the bet of 100 with the
  threshold 2.00 at 2.01 with 201.00, not at 2.00 with 200.00.
\<close>

theorem auto_cash_out_not_at_threshold:
  "shownMultiplier (fst (tick 19940 19940 demoLongFlight)) = 199 / 100
   \<and> Map_get (bets (storage (fst (tick 19940 19940 demoLongFlight)))) ''bet-1'' = Some demoStoredBet
   \<and> amount demoStoredBet = ''100'' \<and> autoCashOut demoStoredBet = Some ''2.00''
   \<and> shownMultiplier (fst (tick 20060 20060 (fst (tick 19940 19940 demoLongFlight)))) = 201 / 100
   \<and> Map_get (bets (storage (fst (tick 20060 20060 (fst (tick 19940 19940 demoLongFlight))))))
         ''bet-1''
       = Some (settled 20060 ''2.01'' ''201.00'' demoStoredBet)
   \<and> ''2.01'' \<noteq> ''2.00'' \<and> ''201.00'' \<noteq> ''200.00''"
  by code_simp

section \<open>Placing a bet\<close>

text \<open>
  Claim C5, evaluated on an amount that is not a number. \<open>parseFloat\<close> reads \<open>abc\<close> as
  \<open>NaN\<close>, which is neither at most 0 nor above the balance, so in the waiting round the
  bet of the default user is placed: the call succeeds, the bet is stored active with
  the amount \<open>abc\<close>, the event carries the amount \<open>NaN\<close>, and the balance 12580.50 is
  replaced by the string \<open>NaN\<close>.
\<close>

theorem placeBet_places_NaN_amount:
  "parseFloat ''abc'' = NaN
   \<and> getUser (storage demoWaiting) ''default-user'' = Some demoUser
   \<and> balance demoUser = ''12580.50''
   \<and> placeBet 4000 ''bet-1'' ''default-user'' ''abc'' None demoWaiting
       = (\<lparr>success = True, message = ''Bet placed successfully'', payload = Some ''bet-1''\<rparr>,
          demoEngine (demoGame Waiting 1 0 10) False True (Num 0) ''NaN''
            [demoStoredBet\<lparr>amount := ''abc'', autoCashOut := None\<rparr>],
          [BetPlaced ''default-user'' NaN None 127535])"
  by code_simp

text \<open>
  An amount below half a cent passes the checks as well: the bet of 0.004 is placed and
  the balance printed with two fraction digits is the one before.
\<close>

lemma placeBet_below_a_cent:
  "placeBet 4000 ''bet-1'' ''default-user'' ''0.004'' None demoWaiting
     = (\<lparr>success = True, message = ''Bet placed successfully'', payload = Some ''bet-1''\<rparr>,
        demoEngine (demoGame Waiting 1 0 10) False True (Num 0) ''12580.50''
          [demoStoredBet\<lparr>amount := ''0.004'', autoCashOut := None\<rparr>],
        [BetPlaced ''default-user'' (Num (1 / 250)) None 127535])"
  by code_simp

end
